theory Spec2Isabelle
  imports Main "HOL-Library.Word"
begin

section \<open>The Go library functions the package calls\<close>

text \<open>
  The package \<^verbatim>\<open>sourcegraph\<close> (file \<^verbatim>\<open>pulls.go\<close>) builds route variables from
  composite specs and reads them back. It leans on \<^verbatim>\<open>strconv.Itoa\<close>,
  \<^verbatim>\<open>strconv.Atoi\<close>, \<^verbatim>\<open>strings.TrimPrefix\<close>, \<^verbatim>\<open>strings.Split\<close> and
  \<^verbatim>\<open>strings.Join\<close> of the Go standard library, which are embedded first.
  Go's \<^verbatim>\<open>int\<close> is taken at its 64-bit size: a word that is read signed.
\<close>

type_synonym go_int = "64 word"

text \<open>
  Go functions return a value and an error side by side; the pair is kept, since the
  value that comes with a non-nil error is part of what the code does.
  \<^verbatim>\<open>NumError\<close> is \<^verbatim>\<open>strconv.NumError\<close> with its \<^verbatim>\<open>Num\<close> (the input) and
  \<^verbatim>\<open>Err\<close> fields, \<^verbatim>\<open>Errorf\<close> an error made by \<^verbatim>\<open>fmt.Errorf\<close>, and
  \<^verbatim>\<open>Collaborator\<close> an error value handed over by code outside the package
  (the repo-spec codec, the HTTP client), carried as it came.
\<close>

datatype NumErrKind = ErrSyntax | ErrRange

datatype 'e error = NumError string NumErrKind | Errorf string | Collaborator 'e

subsection \<open>strconv\<close>

definition is_digit :: "char \<Rightarrow> bool" where
  "is_digit c = (48 \<le> (of_char c :: nat) \<and> (of_char c :: nat) \<le> 57)"

definition digit_val :: "char \<Rightarrow> nat" where
  "digit_val c = of_char c - 48"

definition digit_char :: "nat \<Rightarrow> char" where
  "digit_char d = ''0123456789'' ! d"

text \<open>\<^verbatim>\<open>strconv.FormatUint(n, 10)\<close>: the decimal digits of \<open>n\<close>, most significant first.\<close>

function FormatUint :: "nat \<Rightarrow> string" where
  "FormatUint n =
     (if n < 10 then [digit_char n] else FormatUint (n div 10) @ [digit_char (n mod 10)])"
  by pat_completeness auto
termination
  by (relation "measure id") auto

declare FormatUint.simps [simp del]

text \<open>\<^verbatim>\<open>strconv.Itoa(i)\<close> is \<^verbatim>\<open>FormatInt(int64(i), 10)\<close>: a minus sign and the digits of
  the magnitude for a negative number.\<close>

definition Itoa :: "go_int \<Rightarrow> string" where
  "Itoa w =
     (let i = sint w
      in if i < 0 then CHR ''-'' # FormatUint (nat (- i)) else FormatUint (nat i))"

definition maxUint64 :: nat where
  "maxUint64 = 18446744073709551615"

text \<open>
  The digit loop of \<^verbatim>\<open>strconv.ParseUint(s, 10, 64)\<close>. A byte that is no decimal digit is
  a syntax error when the loop reaches it; an accumulator at or above
  \<^verbatim>\<open>maxUint64/10 + 1\<close>, or a sum past \<^verbatim>\<open>maxUint64\<close>, is a range error with the value
  \<^verbatim>\<open>maxUint64\<close>, returned at once (the bytes that follow are not looked at).
\<close>

fun ParseUint_loop :: "nat \<Rightarrow> string \<Rightarrow> nat \<times> NumErrKind option" where
  "ParseUint_loop n [] = (n, None)"
| "ParseUint_loop n (c # cs) =
     (if \<not> is_digit c then (0, Some ErrSyntax)
      else if n \<ge> maxUint64 div 10 + 1 then (maxUint64, Some ErrRange)
      else let n1 = n * 10 + digit_val c
           in if n1 > maxUint64 then (maxUint64, Some ErrRange) else ParseUint_loop n1 cs)"

definition ParseUint :: "string \<Rightarrow> nat \<times> NumErrKind option" where
  "ParseUint s = (if s = [] then (0, Some ErrSyntax) else ParseUint_loop 0 s)"

text \<open>
  \<^verbatim>\<open>strconv.ParseInt(s, 10, 0)\<close>: an optional sign, then \<^verbatim>\<open>ParseUint\<close>; a magnitude
  that does not fit 64 signed bits is a range error whose value is the nearest bound.
\<close>

definition ParseInt :: "string \<Rightarrow> int \<times> NumErrKind option" where
  "ParseInt s =
     (case s of
        [] \<Rightarrow> (0, Some ErrSyntax)
      | c # cs \<Rightarrow>
          (let neg = (c = CHR ''-'');
               s1 = (if c = CHR ''+'' \<or> c = CHR ''-'' then cs else s);
               (un, err) = ParseUint s1
           in if err = Some ErrSyntax then (0, Some ErrSyntax)
              else if \<not> neg \<and> un \<ge> 2 ^ 63 then (2 ^ 63 - 1, Some ErrRange)
              else if neg \<and> un > 2 ^ 63 then (- (2 ^ 63), Some ErrRange)
              else (if neg then - int un else int un, None)))"

text \<open>\<^verbatim>\<open>strconv.Atoi(s)\<close> is \<^verbatim>\<open>ParseInt(s, 10, 0)\<close> converted to \<^verbatim>\<open>int\<close>; its error is a
  \<^verbatim>\<open>NumError\<close> that names the input.\<close>

definition Atoi :: "string \<Rightarrow> go_int \<times> 'e error option" where
  "Atoi s = (case ParseInt s of (i, k) \<Rightarrow> (word_of_int i, map_option (NumError s) k))"

subsection \<open>strings\<close>

definition HasPrefix :: "string \<Rightarrow> string \<Rightarrow> bool" where
  "HasPrefix s p = (length p \<le> length s \<and> take (length p) s = p)"

definition TrimPrefix :: "string \<Rightarrow> string \<Rightarrow> string" where
  "TrimPrefix s p = (if HasPrefix s p then drop (length p) s else s)"

text \<open>
  \<^verbatim>\<open>strings.Split(s, sep)\<close> for a separator of one byte, which is how the package calls
  it (\<^verbatim>\<open>"/"\<close>): the pieces between the separators, an empty string giving one empty
  piece. The slice it returns has its capacity equal to its length.
\<close>

fun Split :: "string \<Rightarrow> char \<Rightarrow> string list" where
  "Split [] sep = [[]]"
| "Split (x # xs) sep =
     (if x = sep then [] # Split xs sep
      else (case Split xs sep of [] \<Rightarrow> [[x]] | y # ys \<Rightarrow> (x # y) # ys))"

fun Join :: "string list \<Rightarrow> string \<Rightarrow> string" where
  "Join [] sep = []"
| "Join [x] sep = x"
| "Join (x # y # ys) sep = x @ sep @ Join (y # ys) sep"

text \<open>Reading a Go \<^verbatim>\<open>map[string]string\<close>: a key that is absent reads as the empty string.\<close>

definition index :: "(string \<rightharpoonup> string) \<Rightarrow> string \<Rightarrow> string" where
  "index v k = (case v k of None \<Rightarrow> [] | Some x \<Rightarrow> x)"

section \<open>pulls.go\<close>

text \<open>
  Modelled from the spec: the declaration of \<^verbatim>\<open>RepoSpec\<close> is not among the source
  files; the spec calls it an opaque identifier (a URI string), and \<^verbatim>\<open>pulls.go\<close>
  reads and writes its \<^verbatim>\<open>URI\<close> field only.
\<close>

record RepoSpec =
  URI :: string

record PullRequestSpec =
  Repo :: RepoSpec
  Number :: go_int

definition PullRequestSpec_zero :: PullRequestSpec where
  "PullRequestSpec_zero = \<lparr>Repo = \<lparr>URI = []\<rparr>, Number = 0\<rparr>"

definition PullRequestSpec_RouteVars :: "PullRequestSpec \<Rightarrow> (string \<rightharpoonup> string)" where
  "PullRequestSpec_RouteVars s =
     [''RepoSpec'' \<mapsto> URI (Repo s), ''Pull'' \<mapsto> Itoa (Number s)]"

text \<open>
  \<^verbatim>\<open>UnmarshalRepoSpec\<close> belongs to the repo-spec codec, which is not among the source
  files: it is the parameter \<open>urs\<close>, a function from the route variables to a
  \<^verbatim>\<open>RepoSpec\<close> and an error.
\<close>

definition UnmarshalPullRequestSpec ::
  "((string \<rightharpoonup> string) \<Rightarrow> RepoSpec \<times> 'e option) \<Rightarrow> (string \<rightharpoonup> string)
     \<Rightarrow> PullRequestSpec \<times> 'e error option" where
  "UnmarshalPullRequestSpec urs v =
     (let ps = PullRequestSpec_zero;
          (r, err) = urs v;
          ps = ps\<lparr>Repo := r\<rparr>
      in case err of
           Some e \<Rightarrow> (ps, Some (Collaborator e))
         | None \<Rightarrow>
             (let (n, err) = Atoi (index v ''Pull'');
                  ps = ps\<lparr>Number := n\<rparr>
              in (ps, err)))"

text \<open>
  \<^verbatim>\<open>github.PullRequest\<close>, embedded in \<^verbatim>\<open>PullRequest\<close>, holds pointers: \<^verbatim>\<open>HTMLURL\<close> is a
  \<^verbatim>\<open>*string\<close> and \<^verbatim>\<open>Number\<close> a \<^verbatim>\<open>*int\<close> (here \<open>pr_Number\<close>, the name \<open>Number\<close> being
  the field of \<open>PullRequestSpec\<close>). A nil pointer is \<open>None\<close>.
\<close>

record PullRequest =
  HTMLURL :: "string option"
  pr_Number :: "go_int option"

datatype panic = NilDereference | SliceBoundsOutOfRange

text \<open>
  \<^verbatim>\<open>(*PullRequest).Spec\<close>, for a receiver that is not nil. The expression for the URI is
  evaluated first (\<^verbatim>\<open>*r.HTMLURL\<close>, then the slice \<^verbatim>\<open>[0:3]\<close>), \<^verbatim>\<open>*r.Number\<close> after it;
  each can panic.
\<close>

definition PullRequest_Spec :: "PullRequest \<Rightarrow> panic + PullRequestSpec" where
  "PullRequest_Spec r =
     (case HTMLURL r of
        None \<Rightarrow> Inl NilDereference
      | Some u \<Rightarrow>
          (let segs = Split (TrimPrefix u ''https://'') (CHR ''/'')
           in if length segs < 3 then Inl SliceBoundsOutOfRange
              else (let uri = Join (take 3 segs) ''/''
                    in case pr_Number r of
                         None \<Rightarrow> Inl NilDereference
                       | Some n \<Rightarrow> Inr \<lparr>Repo = \<lparr>URI = uri\<rparr>, Number = n\<rparr>)))"

record PullRequestCommentSpec =
  Pull :: PullRequestSpec
  Comment :: go_int

definition PullRequestCommentSpec_zero :: PullRequestCommentSpec where
  "PullRequestCommentSpec_zero = \<lparr>Pull = PullRequestSpec_zero, Comment = 0\<rparr>"

text \<open>The results \<^verbatim>\<open>spec\<close> and \<^verbatim>\<open>err\<close> are named: a bare \<^verbatim>\<open>return\<close> gives back
  \<^verbatim>\<open>spec\<close> as it stands, which is its zero value until both fields are assigned.\<close>

definition UnmarshalPullRequestCommentSpec ::
  "((string \<rightharpoonup> string) \<Rightarrow> RepoSpec \<times> 'e option) \<Rightarrow> (string \<rightharpoonup> string)
     \<Rightarrow> PullRequestCommentSpec \<times> 'e error option" where
  "UnmarshalPullRequestCommentSpec urs v =
     (let spec = PullRequestCommentSpec_zero;
          (pull, err) = UnmarshalPullRequestSpec urs v
      in case err of
           Some e \<Rightarrow> (spec, Some e)
         | None \<Rightarrow>
             (let (commentID, err) = Atoi (index v ''CommentID'')
              in case err of
                   Some e \<Rightarrow> (spec, Some e)
                 | None \<Rightarrow> (spec\<lparr>Pull := pull, Comment := commentID\<rparr>, None)))"

definition PullRequestCommentSpec_RouteVars ::
  "PullRequestCommentSpec \<Rightarrow> (string \<rightharpoonup> string)" where
  "PullRequestCommentSpec_RouteVars c =
     (let rv = PullRequestSpec_RouteVars (Pull c)
      in rv(''CommentID'' \<mapsto> Itoa (Comment c)))"

subsection \<open>The service\<close>

text \<open>
  \<^verbatim>\<open>github.PullRequestComment\<close>, embedded in \<^verbatim>\<open>PullRequestComment\<close>, has the pointer
  \<^verbatim>\<open>ID\<close>; the service reads no other field of it.
\<close>

record PullRequestComment =
  Published :: bool
  ID :: "go_int option"

text \<open>The route names of the \<^verbatim>\<open>router\<close> package that \<^verbatim>\<open>pulls.go\<close> uses.\<close>

datatype Route =
    RepoPullRequest
  | RepoPullRequests
  | RepoPullRequestComments
  | RepoPullRequestCommentsCreate
  | RepoPullRequestCommentsEdit
  | RepoPullRequestCommentsDelete

record Request =
  Method :: string
  URL :: string
  Payload :: "PullRequestComment option"

text \<open>
  The client is not among the source files: its three methods are the fields of a
  record of functions. \<open>client_url\<close> stands for \<^verbatim>\<open>s.client.url\<close> followed by
  \<^verbatim>\<open>url.String()\<close>, \<open>Do\<close> gives the decoded body, the response and the error.
\<close>

record ('e, 'r) Client =
  client_url :: "Route \<Rightarrow> (string \<rightharpoonup> string) \<Rightarrow> string \<times> 'e option"
  NewRequest :: "string \<Rightarrow> string \<Rightarrow> PullRequestComment option \<Rightarrow> Request \<times> 'e option"
  Do :: "Request \<Rightarrow> PullRequestComment \<times> 'r option \<times> 'e option"

text \<open>What the service asks of the client, in order.\<close>

datatype Call =
    UrlCall Route "string \<rightharpoonup> string"
  | NewRequestCall string string "PullRequestComment option"
  | DoCall Request

text \<open>\<^verbatim>\<open>EditComment\<close>, for a comment pointer that is not nil: its three results, and
  the calls it made on the client.\<close>

definition EditComment ::
  "('e, 'r) Client \<Rightarrow> PullRequestSpec \<Rightarrow> PullRequestComment
     \<Rightarrow> (PullRequestComment option \<times> 'r option \<times> 'e error option) \<times> Call list" where
  "EditComment cl pull comment =
     (case ID comment of
        None \<Rightarrow> ((None, None, Some (Errorf ''comment ID not specified'')), [])
      | Some i \<Rightarrow>
          (let rv = PullRequestCommentSpec_RouteVars \<lparr>Pull = pull, Comment = i\<rparr>;
               (u, err) = client_url cl RepoPullRequestCommentsEdit rv;
               calls = [UrlCall RepoPullRequestCommentsEdit rv]
           in case err of
                Some e \<Rightarrow> ((None, None, Some (Collaborator e)), calls)
              | None \<Rightarrow>
                  (let (req, err) = NewRequest cl ''PATCH'' u (Some comment);
                       calls = calls @ [NewRequestCall ''PATCH'' u (Some comment)]
                   in case err of
                        Some e \<Rightarrow> ((None, None, Some (Collaborator e)), calls)
                      | None \<Rightarrow>
                          (let (updatedComment, resp, err) = Do cl req;
                               calls = calls @ [DoCall req]
                           in case err of
                                Some e \<Rightarrow> ((None, None, Some (Collaborator e)), calls)
                              | None \<Rightarrow> ((Some updatedComment, resp, None), calls)))))"

text \<open>
  Modelled from the spec: \<^verbatim>\<open>UnmarshalRepoSpec\<close> is not among the source files; the
  spec has it recover the repo from the route variable \<^verbatim>\<open>RepoSpec\<close> and fail on a
  malformed repo spec. This stand-in serves where a concrete collaborator is needed; the
  theorems about \<open>UnmarshalPullRequestSpec\<close> hold for every collaborator.
\<close>

definition UnmarshalRepoSpec :: "(string \<rightharpoonup> string) \<Rightarrow> RepoSpec \<times> string option" where
  "UnmarshalRepoSpec v =
     (case v ''RepoSpec'' of
        None \<Rightarrow> (\<lparr>URI = []\<rparr>, Some ''malformed repo spec'')
      | Some u \<Rightarrow> (\<lparr>URI = u\<rparr>, None))"

text \<open>A client whose calls all succeed when the request has a body, for concrete runs
  of the service.\<close>

definition client_model :: "(string, nat) Client" where
  "client_model =
     \<lparr>client_url = (\<lambda>route rv. (''/repos/'' @ index rv ''RepoSpec'' @ ''/pulls/'' @ index rv ''Pull''
                                  @ ''/comments/'' @ index rv ''CommentID'', None)),
      NewRequest = (\<lambda>m u body. (\<lparr>Method = m, URL = u, Payload = body\<rparr>, None)),
      Do = (\<lambda>req. (case Payload req of
                      None \<Rightarrow> (\<lparr>Published = False, ID = None\<rparr>, None, Some ''no body'')
                    | Some c \<Rightarrow> (c, Some 200, None)))\<rparr>"

text \<open>A client that finds no route: its \<open>client_url\<close> fails.\<close>

definition client_no_route :: "(string, nat) Client" where
  "client_no_route = client_model\<lparr>client_url := (\<lambda>route rv. ([], Some ''no route''))\<rparr>"

section \<open>What a decimal integer is\<close>

text \<open>
  The vocabulary of the statements about \<^verbatim>\<open>Itoa\<close> and \<^verbatim>\<open>Atoi\<close>: the value of a
  string of digits, read from the left; a decimal integer as a text (an optional sign,
  then one digit or more); its value; and the range of Go's 64-bit \<^verbatim>\<open>int\<close>.
\<close>

definition dec_val :: "nat \<Rightarrow> string \<Rightarrow> nat" where
  "dec_val n ds = foldl (\<lambda>a c. a * 10 + digit_val c) n ds"

definition decimal_integer :: "string \<Rightarrow> bool" where
  "decimal_integer s =
     (case s of
        [] \<Rightarrow> False
      | c # cs \<Rightarrow>
          (let ds = (if c = CHR ''+'' \<or> c = CHR ''-'' then cs else s)
           in ds \<noteq> [] \<and> list_all is_digit ds))"

definition decimal_value :: "string \<Rightarrow> int" where
  "decimal_value s =
     (case s of
        [] \<Rightarrow> 0
      | c # cs \<Rightarrow>
          (if c = CHR ''-'' then - int (dec_val 0 cs)
           else if c = CHR ''+'' then int (dec_val 0 cs)
           else int (dec_val 0 s)))"

definition fits_int :: "int \<Rightarrow> bool" where
  "fits_int i = (- (2 ^ 63) \<le> i \<and> i < 2 ^ 63)"

section \<open>The person-spec codec\<close>

text \<open>
  Modelled from the spec: \<^verbatim>\<open>PersonSpec\<close>, \<^verbatim>\<open>ParsePersonSpec\<close> and
  \<^verbatim>\<open>PathComponent\<close> are not among the source files; only their test is. The record
  has the three fields the test sets, \<^verbatim>\<open>UID\<close> being a non-negative integer as the spec
  says.
\<close>

record PersonSpec =
  Login :: string
  Email :: string
  UID :: nat

datatype SpecError = InvalidFormat

text \<open>
  Modelled from the spec: \<^verbatim>\<open>ParsePersonSpec\<close> is missing from the source files. The
  spec's grammar, checked in order: a text that begins with \<^verbatim>\<open>$\<close> must have a remainder
  that parses as a non-negative integer (one decimal digit or more) and gives a spec with
  \<^verbatim>\<open>UID\<close>, failing with \<^verbatim>\<open>InvalidFormat\<close> otherwise; else a text that contains
  \<^verbatim>\<open>@\<close> is the \<^verbatim>\<open>Email\<close>, verbatim; else the text is the \<^verbatim>\<open>Login\<close>, verbatim.
\<close>

definition ParsePersonSpec :: "string \<Rightarrow> SpecError + PersonSpec" where
  "ParsePersonSpec t =
     (if HasPrefix t ''$'' then
        (let ds = drop 1 t
         in if ds \<noteq> [] \<and> list_all is_digit ds
            then Inr \<lparr>Login = [], Email = [], UID = dec_val 0 ds\<rparr>
            else Inl InvalidFormat)
      else if CHR ''@'' \<in> set t then Inr \<lparr>Login = [], Email = t, UID = 0\<rparr>
      else Inr \<lparr>Login = t, Email = [], UID = 0\<rparr>)"

text \<open>The number of populated fields: \<^verbatim>\<open>Login\<close> non-empty, \<^verbatim>\<open>Email\<close> non-empty,
  \<^verbatim>\<open>UID\<close> above zero. The spec's invariant is that it is one.\<close>

definition populated :: "PersonSpec \<Rightarrow> nat" where
  "populated s =
     (if Login s \<noteq> [] then 1 else 0) + (if Email s \<noteq> [] then 1 else 0)
       + (if UID s > 0 then 1 else 0)"

text \<open>
  Modelled from the spec: \<^verbatim>\<open>PathComponent\<close> (the spec's Format) is missing from the
  source files. A spec with \<^verbatim>\<open>UID\<close> gives \<^verbatim>\<open>$\<close> and the decimal digits, one with
  \<^verbatim>\<open>Email\<close> the email, one with \<^verbatim>\<open>Login\<close> the login; with no field or several
  populated the spec leaves the result open and asks for a failure, here \<open>None\<close>.
\<close>

definition PathComponent :: "PersonSpec \<Rightarrow> string option" where
  "PathComponent s =
     (if populated s \<noteq> 1 then None
      else if UID s > 0 then Some (CHR ''$'' # FormatUint (UID s))
      else if Email s \<noteq> [] then Some (Email s)
      else Some (Login s))"

text \<open>\<^verbatim>\<open>TestPersonSpec\<close>, the test of the codec that is among the source files: its table,
  and for each row the failures it would report.\<close>

definition tests :: "(string \<times> PersonSpec) list" where
  "tests =
     [(''a'', \<lparr>Login = ''a'', Email = [], UID = 0\<rparr>),
      (''a@a.com'', \<lparr>Login = [], Email = ''a@a.com'', UID = 0\<rparr>),
      (''$1'', \<lparr>Login = [], Email = [], UID = 1\<rparr>)]"

fun run_test :: "string \<times> PersonSpec \<Rightarrow> string list" where
  "run_test (str, spec) =
     (case ParsePersonSpec str of
        Inl err \<Rightarrow> [''ParsePersonSpec failed'']
      | Inr got \<Rightarrow>
          if got \<noteq> spec then [''got spec'']
          else if PathComponent spec \<noteq> Some str then [''got str'']
          else [])"

definition TestPersonSpec :: "string list" where
  "TestPersonSpec = concat (map run_test tests)"

section \<open>Digits and decimal texts\<close>

lemma lt10: "(d::nat) < 10 \<Longrightarrow> d = 0 \<or> d = 1 \<or> d = 2 \<or> d = 3 \<or> d = 4 \<or> d = 5 \<or> d = 6 \<or> d = 7 \<or> d = 8 \<or> d = 9"
  by arith

lemma digit_char_code: "d < 10 \<Longrightarrow> of_char (digit_char d) = 48 + d"
  using lt10 [of d] by (auto simp: digit_char_def)

lemma is_digit_digit_char: "d < 10 \<Longrightarrow> is_digit (digit_char d)"
  by (simp add: is_digit_def digit_char_code)

lemma digit_val_digit_char: "d < 10 \<Longrightarrow> digit_val (digit_char d) = d"
  by (simp add: digit_val_def digit_char_code)

lemma digit_val_lt10: "is_digit c \<Longrightarrow> digit_val c < 10"
  unfolding is_digit_def digit_val_def by arith

lemma digit_char_digit_val: "is_digit c \<Longrightarrow> digit_char (digit_val c) = c"
proof -
  assume a: "is_digit c"
  then have "of_char (digit_char (digit_val c)) = 48 + digit_val c"
    by (intro digit_char_code digit_val_lt10)
  also have "\<dots> = of_char c" using a unfolding is_digit_def digit_val_def by arith
  finally show ?thesis by simp
qed

lemma dec_val_Nil [simp]: "dec_val n [] = n"
  by (simp add: dec_val_def)

lemma dec_val_Cons [simp]: "dec_val n (c # cs) = dec_val (n * 10 + digit_val c) cs"
  by (simp add: dec_val_def)

lemma dec_val_snoc: "dec_val n (ds @ [c]) = dec_val n ds * 10 + digit_val c"
  by (simp add: dec_val_def)

lemma dec_val_ge: "n \<le> dec_val n ds"
proof (induction ds arbitrary: n)
  case Nil
  show ?case by simp
next
  case (Cons c cs)
  have "n \<le> n * 10 + digit_val c" by simp
  also have "\<dots> \<le> dec_val (n * 10 + digit_val c) cs" by (rule Cons.IH)
  finally show ?case by simp
qed

lemma FormatUint_digits: "list_all is_digit (FormatUint n)"
proof (induction n rule: FormatUint.induct)
  case (1 n)
  show ?case
  proof (cases "n < 10")
    case True
    then show ?thesis by (simp add: FormatUint.simps [of n] is_digit_digit_char)
  next
    case False
    with 1 show ?thesis by (simp add: FormatUint.simps [of n] is_digit_digit_char)
  qed
qed

lemma FormatUint_not_Nil: "FormatUint n \<noteq> []"
  by (subst FormatUint.simps) simp

lemma dec_val_FormatUint: "dec_val 0 (FormatUint n) = n"
proof (induction n rule: FormatUint.induct)
  case (1 n)
  show ?case
  proof (cases "n < 10")
    case True
    then show ?thesis by (simp add: FormatUint.simps [of n] digit_val_digit_char)
  next
    case False
    with 1 show ?thesis
      by (simp add: FormatUint.simps [of n] dec_val_snoc digit_val_digit_char)
  qed
qed

lemma ParseUint_loop_fits:
  "list_all is_digit ds \<Longrightarrow> dec_val n ds \<le> maxUint64 \<Longrightarrow> ParseUint_loop n ds = (dec_val n ds, None)"
proof (induction ds arbitrary: n)
  case Nil
  show ?case by simp
next
  case (Cons c cs)
  let ?n1 = "n * 10 + digit_val c"
  have le: "?n1 \<le> maxUint64"
    using dec_val_ge [of ?n1 cs] Cons.prems(2) by simp
  then have lt: "\<not> n \<ge> maxUint64 div 10 + 1"
    by (simp add: maxUint64_def)
  from Cons.prems have "ParseUint_loop ?n1 cs = (dec_val ?n1 cs, None)"
    by (intro Cons.IH) simp_all
  with Cons.prems(1) le lt show ?case by (simp add: Let_def)
qed

lemma ParseUint_loop_range:
  "list_all is_digit ds \<Longrightarrow> maxUint64 < dec_val n ds \<Longrightarrow> n \<le> maxUint64
     \<Longrightarrow> ParseUint_loop n ds = (maxUint64, Some ErrRange)"
proof (induction ds arbitrary: n)
  case Nil
  then show ?case by simp
next
  case (Cons c cs)
  then show ?case by (simp add: Let_def)
qed


lemma ParseUint_loop_bad:
  "\<not> list_all is_digit ds \<Longrightarrow>
     ParseUint_loop n ds = (0, Some ErrSyntax) \<or> ParseUint_loop n ds = (maxUint64, Some ErrRange)"
  by (induction ds arbitrary: n) (auto simp: Let_def)

lemma ParseUint_digits:
  assumes "ds \<noteq> []" and "list_all is_digit ds"
  shows "ParseUint ds =
     (if dec_val 0 ds \<le> maxUint64 then (dec_val 0 ds, None) else (maxUint64, Some ErrRange))"
proof (cases "dec_val 0 ds \<le> maxUint64")
  case True
  with assms show ?thesis by (simp add: ParseUint_def ParseUint_loop_fits)
next
  case False
  with assms show ?thesis by (simp add: ParseUint_def ParseUint_loop_range)
qed

lemma ParseUint_bad:
  assumes "ds = [] \<or> \<not> list_all is_digit ds"
  shows "ParseUint ds = (0, Some ErrSyntax) \<or> ParseUint ds = (maxUint64, Some ErrRange)"
proof (cases "ds = []")
  case True
  then show ?thesis by (simp add: ParseUint_def)
next
  case False
  with assms have "\<not> list_all is_digit ds" by simp
  from ParseUint_loop_bad [OF this, of 0] False show ?thesis by (simp add: ParseUint_def)
qed

lemma ParseInt_Cons:
  assumes "ds = (if c = CHR ''+'' \<or> c = CHR ''-'' then cs else c # cs)"
  shows "ParseInt (c # cs) =
     (case ParseUint ds of (un, err) \<Rightarrow>
        if err = Some ErrSyntax then (0, Some ErrSyntax)
        else if c \<noteq> CHR ''-'' \<and> un \<ge> 2 ^ 63 then (2 ^ 63 - 1, Some ErrRange)
        else if c = CHR ''-'' \<and> un > 2 ^ 63 then (- (2 ^ 63), Some ErrRange)
        else (if c = CHR ''-'' then - int un else int un, None))"
  unfolding assms ParseInt_def by (simp add: Let_def)

lemma decimal_integer_Cons:
  assumes "ds = (if c = CHR ''+'' \<or> c = CHR ''-'' then cs else c # cs)"
  shows "decimal_integer (c # cs) = (ds \<noteq> [] \<and> list_all is_digit ds)"
  unfolding assms decimal_integer_def by (simp add: Let_def)

lemma decimal_value_Cons:
  assumes "ds = (if c = CHR ''+'' \<or> c = CHR ''-'' then cs else c # cs)"
  shows "decimal_value (c # cs) = (if c = CHR ''-'' then - int (dec_val 0 ds) else int (dec_val 0 ds))"
  unfolding assms decimal_value_def by simp

lemma ParseInt_sound:
  assumes "decimal_integer s"
  shows "ParseInt s =
     (if fits_int (decimal_value s) then (decimal_value s, None)
      else if decimal_value s < 0 then (- (2 ^ 63), Some ErrRange)
      else (2 ^ 63 - 1, Some ErrRange))"
proof (cases s)
  case Nil
  with assms show ?thesis by (simp add: decimal_integer_def)
next
  case (Cons c cs)
  define ds where "ds = (if c = CHR ''+'' \<or> c = CHR ''-'' then cs else c # cs)"
  from assms Cons have ds: "ds \<noteq> []" "list_all is_digit ds"
    by (simp_all add: decimal_integer_Cons [OF ds_def])
  note pu = ParseUint_digits [OF ds]
  note val = decimal_value_Cons [OF ds_def]
  note pi = ParseInt_Cons [OF ds_def]
  show ?thesis
  proof (cases "dec_val 0 ds \<le> maxUint64")
    case True
    with pu have "ParseUint ds = (dec_val 0 ds, None)" by simp
    then show ?thesis
      unfolding Cons pi val by (auto simp: fits_int_def)
  next
    case False
    with pu have "ParseUint ds = (maxUint64, Some ErrRange)" by simp
    moreover from False have "2 ^ 63 < dec_val 0 ds" by (simp add: maxUint64_def)
    ultimately show ?thesis
      unfolding Cons pi val by (auto simp: fits_int_def maxUint64_def)
  qed
qed

lemma ParseInt_bad:
  assumes "\<not> decimal_integer s"
  shows "snd (ParseInt s) \<noteq> None"
proof (cases s)
  case Nil
  then show ?thesis by (simp add: ParseInt_def)
next
  case (Cons c cs)
  define ds where "ds = (if c = CHR ''+'' \<or> c = CHR ''-'' then cs else c # cs)"
  from assms Cons have "ds = [] \<or> \<not> list_all is_digit ds"
    by (simp add: decimal_integer_Cons [OF ds_def])
  from ParseUint_bad [OF this] show ?thesis
    unfolding Cons ParseInt_Cons [OF ds_def] by (auto simp: maxUint64_def)
qed

lemma ParseInt_bad_cases:
  assumes "\<not> decimal_integer s"
  shows "ParseInt s = (0, Some ErrSyntax) \<or> ParseInt s = (2 ^ 63 - 1, Some ErrRange)
           \<or> ParseInt s = (- (2 ^ 63), Some ErrRange)"
proof (cases s)
  case Nil
  then show ?thesis by (simp add: ParseInt_def)
next
  case (Cons c cs)
  define ds where "ds = (if c = CHR ''+'' \<or> c = CHR ''-'' then cs else c # cs)"
  from assms Cons have "ds = [] \<or> \<not> list_all is_digit ds"
    by (simp add: decimal_integer_Cons [OF ds_def])
  from ParseUint_bad [OF this] show ?thesis
    unfolding Cons ParseInt_Cons [OF ds_def] by (auto simp: maxUint64_def)
qed

lemma is_digit_not_sign: "is_digit c \<Longrightarrow> c \<noteq> CHR ''+'' \<and> c \<noteq> CHR ''-''"
  by (auto simp: is_digit_def)

lemma decimal_FormatUint:
  "decimal_integer (FormatUint n) \<and> decimal_value (FormatUint n) = int n"
proof (cases "FormatUint n")
  case Nil
  then show ?thesis by (simp add: FormatUint_not_Nil)
next
  case (Cons c cs)
  from FormatUint_digits [of n] Cons have "is_digit c" by simp
  then have ns: "c \<noteq> CHR ''+''" "c \<noteq> CHR ''-''" by (simp_all add: is_digit_not_sign)
  have ds: "c # cs = (if c = CHR ''+'' \<or> c = CHR ''-'' then cs else c # cs)" using ns by simp
  show ?thesis
    unfolding Cons decimal_integer_Cons [OF ds] decimal_value_Cons [OF ds]
    using ns FormatUint_digits [of n] dec_val_FormatUint [of n] by (simp add: Cons)
qed

lemma decimal_minus_FormatUint:
  "decimal_integer (CHR ''-'' # FormatUint n) \<and> decimal_value (CHR ''-'' # FormatUint n) = - int n"
  by (simp add: decimal_integer_def decimal_value_def FormatUint_not_Nil FormatUint_digits
      dec_val_FormatUint)

lemma decimal_Itoa: "decimal_integer (Itoa w) \<and> decimal_value (Itoa w) = sint w"
  using decimal_FormatUint [of "nat (sint w)"] decimal_minus_FormatUint [of "nat (- sint w)"]
  by (simp add: Itoa_def Let_def)

lemma fits_int_sint: "fits_int (sint (w :: go_int))"
  using sint_ge [of w] sint_lt [of w] by (simp add: fits_int_def)

lemma Atoi_Itoa: "Atoi (Itoa w) = (w, None)"
  using ParseInt_sound [of "Itoa w"] decimal_Itoa [of w] fits_int_sint [of w]
  by (simp add: Atoi_def)

lemma Atoi_None_iff:
  "snd (Atoi s :: go_int \<times> 'e error option) = None
     \<longleftrightarrow> decimal_integer s \<and> fits_int (decimal_value s)"
proof (cases "decimal_integer s")
  case True
  from ParseInt_sound [OF this] True show ?thesis by (simp add: Atoi_def)
next
  case False
  from ParseInt_bad [OF this] False show ?thesis by (auto simp: Atoi_def split: prod.splits)
qed

lemma Atoi_cases:
  "(\<exists>i. fits_int i \<and> decimal_integer s \<and> decimal_value s = i \<and> (Atoi s :: go_int \<times> 'e error option) = (word_of_int i, None))
   \<or> (Atoi s :: go_int \<times> 'e error option) = (0, Some (NumError s ErrSyntax))
   \<or> (Atoi s :: go_int \<times> 'e error option) = (word_of_int (2 ^ 63 - 1), Some (NumError s ErrRange))
   \<or> (Atoi s :: go_int \<times> 'e error option) = (word_of_int (- (2 ^ 63)), Some (NumError s ErrRange))"
proof (cases "decimal_integer s")
  case True
  from ParseInt_sound [OF this] True show ?thesis by (simp add: Atoi_def)
next
  case False
  from ParseInt_bad_cases [OF this] show ?thesis by (auto simp: Atoi_def)
qed

text \<open>The equations that evaluate the library functions on a concrete input.\<close>

lemmas eval_simps = Itoa_def FormatUint.simps digit_char_def Atoi_def ParseInt_def ParseUint_def
  is_digit_def digit_val_def maxUint64_def Let_def index_def

section \<open>Route variables and their unmarshalling\<close>

lemma RouteVars_lookup:
  "PullRequestSpec_RouteVars s ''RepoSpec'' = Some (URI (Repo s))"
  "PullRequestSpec_RouteVars s ''Pull'' = Some (Itoa (Number s))"
  "PullRequestCommentSpec_RouteVars c ''RepoSpec'' = Some (URI (Repo (Pull c)))"
  "PullRequestCommentSpec_RouteVars c ''Pull'' = Some (Itoa (Number (Pull c)))"
  "PullRequestCommentSpec_RouteVars c ''CommentID'' = Some (Itoa (Comment c))"
  by (simp_all add: PullRequestSpec_RouteVars_def PullRequestCommentSpec_RouteVars_def)

lemma Unmarshal_RouteVars:
  assumes "urs (PullRequestSpec_RouteVars s) = (Repo s, None)"
  shows "UnmarshalPullRequestSpec urs (PullRequestSpec_RouteVars s) = (s, None)"
  using assms by (simp add: UnmarshalPullRequestSpec_def index_def RouteVars_lookup Atoi_Itoa
      PullRequestSpec_zero_def)

lemma Unmarshal_Comment_RouteVars:
  assumes "urs (PullRequestCommentSpec_RouteVars c) = (Repo (Pull c), None)"
  shows "UnmarshalPullRequestCommentSpec urs (PullRequestCommentSpec_RouteVars c) = (c, None)"
  using assms by (simp add: UnmarshalPullRequestCommentSpec_def UnmarshalPullRequestSpec_def
      index_def RouteVars_lookup Atoi_Itoa PullRequestSpec_zero_def PullRequestCommentSpec_zero_def)

lemma Unmarshal_repo_error:
  "snd (urs v) = Some e \<Longrightarrow>
     UnmarshalPullRequestSpec urs v = (\<lparr>Repo = fst (urs v), Number = 0\<rparr>, Some (Collaborator e))"
  by (cases "urs v") (simp add: UnmarshalPullRequestSpec_def PullRequestSpec_zero_def)

lemma Unmarshal_repo_ok:
  "snd (urs v) = None \<Longrightarrow>
     UnmarshalPullRequestSpec urs v =
       (case Atoi (index v ''Pull'') of (n, err) \<Rightarrow> (\<lparr>Repo = fst (urs v), Number = n\<rparr>, err))"
  by (cases "urs v") (simp add: UnmarshalPullRequestSpec_def PullRequestSpec_zero_def)

lemma Unmarshal_snd:
  fixes urs :: "(string \<rightharpoonup> string) \<Rightarrow> RepoSpec \<times> 'e option"
  assumes "snd (urs v) = None"
  shows "snd (UnmarshalPullRequestSpec urs v) = None \<longleftrightarrow>
     decimal_integer (index v ''Pull'') \<and> fits_int (decimal_value (index v ''Pull''))"
proof -
  have "snd (UnmarshalPullRequestSpec urs v) = snd (Atoi (index v ''Pull'') :: go_int \<times> 'e error option)"
    unfolding Unmarshal_repo_ok [of urs v, OF assms] by (simp split: prod.splits)
  then show ?thesis by (simp only: Atoi_None_iff [where 'e = 'e])
qed

lemma Unmarshal_Number_on_error:
  fixes urs :: "(string \<rightharpoonup> string) \<Rightarrow> RepoSpec \<times> 'e option"
  shows "Repo (fst (UnmarshalPullRequestSpec urs v)) = fst (urs v)
    \<and> (case snd (UnmarshalPullRequestSpec urs v) of
         None \<Rightarrow> True
       | Some (Collaborator e) \<Rightarrow> Number (fst (UnmarshalPullRequestSpec urs v)) = 0
       | Some (NumError s ErrSyntax) \<Rightarrow> Number (fst (UnmarshalPullRequestSpec urs v)) = 0
       | Some (NumError s ErrRange) \<Rightarrow>
           Number (fst (UnmarshalPullRequestSpec urs v)) = word_of_int (2 ^ 63 - 1)
           \<or> Number (fst (UnmarshalPullRequestSpec urs v)) = word_of_int (- (2 ^ 63))
       | Some (Errorf m) \<Rightarrow> False)"
proof (cases "snd (urs v)")
  case None
  note ok = Unmarshal_repo_ok [of urs v, OF None]
  from Atoi_cases [of "index v ''Pull''", where 'e = 'e] show ?thesis
    unfolding ok by (elim disjE exE) simp_all
next
  case (Some e)
  note er = Unmarshal_repo_error [of urs v, OF Some]
  show ?thesis unfolding er by simp
qed

lemma Unmarshal_Comment_on_error:
  "snd (UnmarshalPullRequestCommentSpec urs v) \<noteq> None \<Longrightarrow>
     fst (UnmarshalPullRequestCommentSpec urs v) = PullRequestCommentSpec_zero"
  by (auto simp: UnmarshalPullRequestCommentSpec_def Let_def split: prod.splits option.splits)

lemma index_missing: "v k = None \<Longrightarrow> \<not> decimal_integer (index v k)"
  by (simp add: index_def decimal_integer_def)

lemma Atoi_out_of_range:
  assumes "decimal_integer p" and "\<not> fits_int (decimal_value p)"
  shows "(Atoi p :: go_int \<times> 'e error option) =
     (if decimal_value p < 0 then word_of_int (- (2 ^ 63)) else word_of_int (2 ^ 63 - 1),
      Some (NumError p ErrRange))"
  using ParseInt_sound [OF assms(1)] assms(2) by (simp add: Atoi_def)

lemma Unmarshal_out_of_range:
  fixes urs :: "(string \<rightharpoonup> string) \<Rightarrow> RepoSpec \<times> 'e option"
  assumes "snd (urs v) = None" and "decimal_integer (index v ''Pull'')"
    and "\<not> fits_int (decimal_value (index v ''Pull''))"
  shows "UnmarshalPullRequestSpec urs v =
     (\<lparr>Repo = fst (urs v),
       Number = (if decimal_value (index v ''Pull'') < 0 then word_of_int (- (2 ^ 63))
                 else word_of_int (2 ^ 63 - 1))\<rparr>,
      Some (NumError (index v ''Pull'') ErrRange))"
  unfolding Unmarshal_repo_ok [of urs v, OF assms(1)]
    Atoi_out_of_range [OF assms(2) assms(3), where 'e = 'e]
  by simp

section \<open>The spec of a pull request\<close>

lemma Split_not_Nil: "Split s sep \<noteq> []"
  by (induction s) (auto split: list.splits)

lemma Split_no_sep: "sep \<notin> set a \<Longrightarrow> Split a sep = [a]"
  by (induction a) auto

lemma Split_append: "sep \<notin> set a \<Longrightarrow> Split (a @ sep # b) sep = a # Split b sep"
  by (induction a) auto

lemma TrimPrefix_append: "TrimPrefix (p @ s) p = s"
  by (simp add: TrimPrefix_def HasPrefix_def)

lemma take3_Split:
  assumes "CHR ''/'' \<notin> set host" "CHR ''/'' \<notin> set seg1" "CHR ''/'' \<notin> set seg2"
    and "rest = [] \<or> hd rest = CHR ''/''"
  shows "\<exists>later. Split (host @ ''/'' @ seg1 @ ''/'' @ seg2 @ rest) (CHR ''/'') = host # seg1 # seg2 # later"
proof (cases rest)
  case Nil
  with assms show ?thesis by (simp add: Split_append Split_no_sep)
next
  case (Cons x xs)
  with assms have "rest = CHR ''/'' # xs" by simp
  with assms show ?thesis by (simp add: Split_append)
qed

section \<open>Editing a comment\<close>

lemma EditComment_nil:
  "ID comment = None \<Longrightarrow>
     EditComment cl pull comment = ((None, None, Some (Errorf ''comment ID not specified'')), [])"
  by (simp add: EditComment_def)

lemma EditComment_calls:
  "ID comment = Some i \<Longrightarrow>
     \<exists>later. snd (EditComment cl pull comment) =
       UrlCall RepoPullRequestCommentsEdit
         (PullRequestCommentSpec_RouteVars \<lparr>Pull = pull, Comment = i\<rparr>) # later"
  by (simp add: EditComment_def Let_def split: prod.splits option.splits)

lemma EditComment_other_error:
  "ID comment = Some i \<Longrightarrow>
     snd (snd (fst (EditComment cl pull comment))) \<noteq> Some (Errorf ''comment ID not specified'')"
  by (simp add: EditComment_def Let_def split: prod.splits option.splits)

lemma EditComment_url_error:
  assumes "ID comment = Some i"
    and "snd (client_url cl RepoPullRequestCommentsEdit
           (PullRequestCommentSpec_RouteVars \<lparr>Pull = pull, Comment = i\<rparr>)) = Some e"
  shows "EditComment cl pull comment =
     ((None, None, Some (Collaborator e)),
      [UrlCall RepoPullRequestCommentsEdit
         (PullRequestCommentSpec_RouteVars \<lparr>Pull = pull, Comment = i\<rparr>)])"
  using assms by (auto simp: EditComment_def Let_def split: prod.splits option.splits)

lemma EditComment_request_error:
  assumes "ID comment = Some i"
    and "client_url cl RepoPullRequestCommentsEdit
           (PullRequestCommentSpec_RouteVars \<lparr>Pull = pull, Comment = i\<rparr>) = (u, None)"
    and "snd (NewRequest cl ''PATCH'' u (Some comment)) = Some e"
  shows "EditComment cl pull comment =
     ((None, None, Some (Collaborator e)),
      [UrlCall RepoPullRequestCommentsEdit
         (PullRequestCommentSpec_RouteVars \<lparr>Pull = pull, Comment = i\<rparr>),
       NewRequestCall ''PATCH'' u (Some comment)])"
  using assms by (auto simp: EditComment_def Let_def split: prod.splits option.splits)

lemma EditComment_sent:
  assumes "ID comment = Some i"
    and "client_url cl RepoPullRequestCommentsEdit
           (PullRequestCommentSpec_RouteVars \<lparr>Pull = pull, Comment = i\<rparr>) = (u, None)"
    and "NewRequest cl ''PATCH'' u (Some comment) = (req, None)"
  shows "EditComment cl pull comment =
     ((case Do cl req of
         (updated, resp, None) \<Rightarrow> (Some updated, resp, None)
       | (updated, resp, Some e) \<Rightarrow> (None, None, Some (Collaborator e))),
      [UrlCall RepoPullRequestCommentsEdit
         (PullRequestCommentSpec_RouteVars \<lparr>Pull = pull, Comment = i\<rparr>),
       NewRequestCall ''PATCH'' u (Some comment),
       DoCall req])"
  using assms by (auto simp: EditComment_def Let_def split: prod.splits option.splits)

section \<open>Person specs\<close>

lemmas person_eval = ParsePersonSpec_def PathComponent_def populated_def HasPrefix_def
  is_digit_def digit_val_def digit_char_def FormatUint.simps Let_def

lemma TestPersonSpec_passes: "TestPersonSpec = []"
  by (simp add: TestPersonSpec_def tests_def person_eval)

lemma HasPrefix_dollar: "HasPrefix t ''$'' \<longleftrightarrow> (\<exists>ds. t = CHR ''$'' # ds)"
  by (cases t) (auto simp: HasPrefix_def)

lemma digit_val_zero: "is_digit c \<Longrightarrow> digit_val c = 0 \<Longrightarrow> c = CHR ''0''"
  using digit_char_digit_val [of c] by (simp add: digit_char_def)

lemma canonical_digits:
  "list_all is_digit ds \<Longrightarrow> ds \<noteq> [] \<Longrightarrow> hd ds \<noteq> CHR ''0''
     \<Longrightarrow> 0 < dec_val 0 ds \<and> FormatUint (dec_val 0 ds) = ds"
proof (induction ds rule: rev_induct)
  case Nil
  then show ?case by simp
next
  case (snoc c xs)
  from snoc.prems have c: "is_digit c" and xs: "list_all is_digit xs" by simp_all
  show ?case
  proof (cases "xs = []")
    case True
    with snoc.prems have "c \<noteq> CHR ''0''" by simp
    with c have "digit_val c \<noteq> 0" using digit_val_zero by blast
    with True c show ?thesis
      by (simp add: FormatUint.simps [of "digit_val c"] digit_val_lt10 digit_char_digit_val)
  next
    case False
    with snoc.prems have "hd xs \<noteq> CHR ''0''" by simp
    with snoc.IH xs False have ih: "0 < dec_val 0 xs" "FormatUint (dec_val 0 xs) = xs" by simp_all
    let ?v = "dec_val 0 xs * 10 + digit_val c"
    have d: "digit_val c < 10" using c by (rule digit_val_lt10)
    from ih(1) have ge: "\<not> ?v < 10" by simp
    from d have dm: "?v div 10 = dec_val 0 xs" "?v mod 10 = digit_val c" by simp_all
    have "FormatUint ?v = FormatUint (dec_val 0 xs) @ [digit_char (digit_val c)]"
      by (subst FormatUint.simps) (simp only: ge dm if_False)
    with ih c show ?thesis by (simp add: dec_val_snoc digit_char_digit_val)
  qed
qed

lemma ParsePersonSpec_literals:
  "ParsePersonSpec ''a'' = Inr \<lparr>Login = ''a'', Email = [], UID = 0\<rparr>"
  "ParsePersonSpec ''a@a.com'' = Inr \<lparr>Login = [], Email = ''a@a.com'', UID = 0\<rparr>"
  "ParsePersonSpec ''$1'' = Inr \<lparr>Login = [], Email = [], UID = 1\<rparr>"
  "ParsePersonSpec ''$x'' = Inl InvalidFormat"
  by (simp_all add: ParsePersonSpec_def HasPrefix_def is_digit_def digit_val_def)

lemma populated_parsed:
  "populated \<lparr>Login = [], Email = [], UID = n\<rparr> = (if 0 < n then 1 else 0)"
  "populated \<lparr>Login = [], Email = t, UID = 0\<rparr> = (if t \<noteq> [] then 1 else 0)"
  "populated \<lparr>Login = t, Email = [], UID = 0\<rparr> = (if t \<noteq> [] then 1 else 0)"
  by (simp_all add: populated_def)

lemma digit_char_zero: "d < 10 \<Longrightarrow> digit_char d = CHR ''0'' \<Longrightarrow> d = 0"
  using digit_val_digit_char [of d] by (simp add: digit_val_def)

lemma hd_FormatUint: "0 < n \<Longrightarrow> hd (FormatUint n) \<noteq> CHR ''0''"
proof (induction n rule: FormatUint.induct)
  case (1 n)
  show ?case
  proof (cases "n < 10")
    case True
    with 1 digit_char_zero [of n] show ?thesis by (auto simp: FormatUint.simps [of n])
  next
    case False
    then have "0 < n div 10" by simp
    with 1 False have "hd (FormatUint (n div 10)) \<noteq> CHR ''0''" by simp
    with False show ?thesis by (simp add: FormatUint.simps [of n] FormatUint_not_Nil)
  qed
qed

lemma roundtrip_format_parse:
  assumes "populated s = 1"
  shows "(\<exists>t. PathComponent s = Some t \<and> ParsePersonSpec t = Inr s) \<longleftrightarrow>
     (\<not> HasPrefix (Login s) ''$'' \<and> CHR ''@'' \<notin> set (Login s)
      \<and> (Email s = [] \<or> (\<not> HasPrefix (Email s) ''$'' \<and> CHR ''@'' \<in> set (Email s))))"
proof -
  obtain l e u where s: "s = \<lparr>Login = l, Email = e, UID = u\<rparr>" by (cases s)
  show ?thesis
  proof (cases "u > 0")
    case True
    with assms have le: "l = []" "e = []" by (auto simp: s populated_def split: if_splits)
    have "ParsePersonSpec (CHR ''$'' # FormatUint u) = Inr s"
      using le by (simp add: s ParsePersonSpec_def HasPrefix_def FormatUint_not_Nil FormatUint_digits
          dec_val_FormatUint)
    with True assms le show ?thesis by (simp add: s PathComponent_def HasPrefix_def)
  next
    case False
    then have u: "u = 0" by simp
    show ?thesis
    proof (cases "e = []")
      case True
      with assms u have l: "l \<noteq> []" by (auto simp: s populated_def split: if_splits)
      from assms u True have pc: "PathComponent s = Some l" by (simp add: s PathComponent_def)
      have "ParsePersonSpec l = Inr s \<longleftrightarrow> \<not> HasPrefix l ''$'' \<and> CHR ''@'' \<notin> set l"
        using True u l by (auto simp: s ParsePersonSpec_def Let_def)
      with pc True show ?thesis by (simp add: s)
    next
      case False
      with assms u have l: "l = []" by (auto simp: s populated_def split: if_splits)
      from assms u False have pc: "PathComponent s = Some e" by (simp add: s PathComponent_def)
      have "ParsePersonSpec e = Inr s \<longleftrightarrow> \<not> HasPrefix e ''$'' \<and> CHR ''@'' \<in> set e"
        using False u l by (auto simp: s ParsePersonSpec_def Let_def)
      with pc False l show ?thesis by (simp add: s HasPrefix_def)
    qed
  qed
qed

lemma roundtrip_parse_format:
  assumes "ParsePersonSpec t = Inr s"
  shows "PathComponent s = Some t \<longleftrightarrow> t \<noteq> [] \<and> \<not> HasPrefix t ''$0''"
proof (cases "HasPrefix t ''$''")
  case True
  then obtain ds where t: "t = CHR ''$'' # ds" by (auto simp: HasPrefix_dollar)
  with assms have ds: "ds \<noteq> []" "list_all is_digit ds"
    and s: "s = \<lparr>Login = [], Email = [], UID = dec_val 0 ds\<rparr>"
    by (auto simp: ParsePersonSpec_def HasPrefix_def Let_def split: if_splits)
  have p0: "HasPrefix t ''$0'' \<longleftrightarrow> hd ds = CHR ''0''"
    using t ds by (cases ds) (auto simp: HasPrefix_def)
  show ?thesis
  proof (cases "hd ds = CHR ''0''")
    case True
    have "PathComponent s \<noteq> Some t"
    proof
      assume pc: "PathComponent s = Some t"
      then have pos: "0 < dec_val 0 ds" by (auto simp: s PathComponent_def populated_def split: if_splits)
      with pc have "FormatUint (dec_val 0 ds) = ds"
        by (simp add: s t PathComponent_def populated_def)
      with hd_FormatUint [OF pos] True show False by simp
    qed
    with True p0 show ?thesis by simp
  next
    case False
    from canonical_digits [OF ds(2) ds(1) False] have "PathComponent s = Some t"
      by (simp add: s t PathComponent_def populated_def)
    with False p0 t show ?thesis by simp
  qed
next
  case False
  then have np: "\<not> HasPrefix t ''$0''" by (cases t) (auto simp: HasPrefix_def)
  from False assms have "s = \<lparr>Login = [], Email = t, UID = 0\<rparr> \<or> s = \<lparr>Login = t, Email = [], UID = 0\<rparr>"
    by (auto simp: ParsePersonSpec_def split: if_splits)
  then have "PathComponent s = Some t \<longleftrightarrow> t \<noteq> []"
    by (auto simp: PathComponent_def populated_parsed split: if_splits)
  with np show ?thesis by simp
qed

section \<open>The claims\<close>

text \<open>
  Claim C1. Unmarshalling is a left inverse of \<^verbatim>\<open>RouteVars\<close> for both composite specs:
  if \<^verbatim>\<open>UnmarshalRepoSpec\<close> recovers \<^verbatim>\<open>s.Repo\<close> from every map whose key
  \<^verbatim>\<open>RepoSpec\<close> is set to \<^verbatim>\<open>s.Repo.URI\<close>, then
  \<^verbatim>\<open>UnmarshalPullRequestSpec(s.RouteVars())\<close> returns \<^verbatim>\<open>(s, nil)\<close>, for every
  pull-request spec \<open>s\<close>; and likewise \<^verbatim>\<open>UnmarshalPullRequestCommentSpec(c.RouteVars())\<close>
  returns \<^verbatim>\<open>(c, nil)\<close> for every comment spec \<open>c\<close>. Every number of Go's \<^verbatim>\<open>int\<close>,
  negative ones included, comes back from its decimal text.
\<close>

theorem Unmarshal_left_inverse:
  "((\<forall>v. v ''RepoSpec'' = Some (URI (Repo s)) \<longrightarrow> urs v = (Repo s, None)) \<longrightarrow>
      UnmarshalPullRequestSpec urs (PullRequestSpec_RouteVars s) = (s, None))
   \<and> ((\<forall>v. v ''RepoSpec'' = Some (URI (Repo (Pull c))) \<longrightarrow> urs v = (Repo (Pull c), None)) \<longrightarrow>
      UnmarshalPullRequestCommentSpec urs (PullRequestCommentSpec_RouteVars c) = (c, None))"
  by (simp add: Unmarshal_RouteVars Unmarshal_Comment_RouteVars RouteVars_lookup)

theorem Unmarshal_left_inverse_witness:
  "UnmarshalPullRequestSpec UnmarshalRepoSpec
      (PullRequestSpec_RouteVars \<lparr>Repo = \<lparr>URI = ''a/b''\<rparr>, Number = 5\<rparr>)
     = (\<lparr>Repo = \<lparr>URI = ''a/b''\<rparr>, Number = 5\<rparr>, None)
   \<and> UnmarshalPullRequestCommentSpec UnmarshalRepoSpec
      (PullRequestCommentSpec_RouteVars \<lparr>Pull = \<lparr>Repo = \<lparr>URI = ''a/b''\<rparr>, Number = 5\<rparr>, Comment = - 7\<rparr>)
     = (\<lparr>Pull = \<lparr>Repo = \<lparr>URI = ''a/b''\<rparr>, Number = 5\<rparr>, Comment = - 7\<rparr>, None)"
  using Unmarshal_left_inverse [of "\<lparr>Repo = \<lparr>URI = ''a/b''\<rparr>, Number = 5\<rparr>" UnmarshalRepoSpec
      "\<lparr>Pull = \<lparr>Repo = \<lparr>URI = ''a/b''\<rparr>, Number = 5\<rparr>, Comment = - 7\<rparr>"]
  by (simp add: UnmarshalRepoSpec_def)

text \<open>
  Claim C4. The route variables of a pull-request spec are exactly the map with
  \<^verbatim>\<open>RepoSpec\<close> set to the repo's URI and \<^verbatim>\<open>Pull\<close> set to the decimal text of the
  number; those of a comment spec are the pull request's map with the one further key
  \<^verbatim>\<open>CommentID\<close>, set to the decimal text of the comment number, the two other keys
  being kept. The text that \<^verbatim>\<open>Itoa\<close> gives is a decimal integer whose value is the
  number. The spec's example has \<^verbatim>\<open>RepoSpec="a/b"\<close>, \<^verbatim>\<open>Pull="5"\<close>,
  \<^verbatim>\<open>CommentID="7"\<close>.
\<close>

theorem RouteVars_exact:
  "PullRequestSpec_RouteVars s = [''RepoSpec'' \<mapsto> URI (Repo s), ''Pull'' \<mapsto> Itoa (Number s)]
   \<and> PullRequestCommentSpec_RouteVars c =
       (PullRequestSpec_RouteVars (Pull c))(''CommentID'' \<mapsto> Itoa (Comment c))
   \<and> dom (PullRequestSpec_RouteVars s) = {''RepoSpec'', ''Pull''}
   \<and> dom (PullRequestCommentSpec_RouteVars c) = {''RepoSpec'', ''Pull'', ''CommentID''}
   \<and> PullRequestCommentSpec_RouteVars c ''RepoSpec'' = PullRequestSpec_RouteVars (Pull c) ''RepoSpec''
   \<and> PullRequestCommentSpec_RouteVars c ''Pull'' = PullRequestSpec_RouteVars (Pull c) ''Pull''
   \<and> decimal_integer (Itoa n) \<and> decimal_value (Itoa n) = sint n
   \<and> PullRequestCommentSpec_RouteVars
         \<lparr>Pull = \<lparr>Repo = \<lparr>URI = ''a/b''\<rparr>, Number = 5\<rparr>, Comment = 7\<rparr>
       = [''RepoSpec'' \<mapsto> ''a/b'', ''Pull'' \<mapsto> ''5'', ''CommentID'' \<mapsto> ''7'']"
proof -
  have "Itoa 5 = ''5''" "Itoa 7 = ''7''"
    by (simp_all add: Itoa_def FormatUint.simps digit_char_def)
  then show ?thesis
    by (auto simp: PullRequestSpec_RouteVars_def PullRequestCommentSpec_RouteVars_def decimal_Itoa)
qed

text \<open>
  Claim C6, as amended. \<^verbatim>\<open>UnmarshalPullRequestSpec(v)\<close> returns an error if and only if
  the repo extraction fails, or \<^verbatim>\<open>v["Pull"]\<close> is missing, or is not a decimal integer
  (an optional sign, then one digit or more), or is one that does not fit Go's 64-bit
  \<^verbatim>\<open>int\<close>. When the repo extraction fails, the collaborator's error is returned as it
  is, with number 0, and the result does not depend on \<^verbatim>\<open>v["Pull"]\<close>: any other map on
  which the collaborator answers the same gives the same result.
\<close>

theorem Unmarshal_error_iff:
  "(snd (UnmarshalPullRequestSpec urs v) \<noteq> None \<longleftrightarrow>
      (snd (urs v) \<noteq> None \<or> v ''Pull'' = None \<or> \<not> decimal_integer (index v ''Pull'')
        \<or> \<not> fits_int (decimal_value (index v ''Pull''))))
   \<and> (\<forall>e. snd (urs v) = Some e \<longrightarrow>
        UnmarshalPullRequestSpec urs v = (\<lparr>Repo = fst (urs v), Number = 0\<rparr>, Some (Collaborator e)))
   \<and> (\<forall>v'. urs v' = urs v \<and> snd (urs v) \<noteq> None \<longrightarrow>
        UnmarshalPullRequestSpec urs v' = UnmarshalPullRequestSpec urs v)"
proof (intro conjI allI impI)
  show "snd (UnmarshalPullRequestSpec urs v) \<noteq> None \<longleftrightarrow>
      (snd (urs v) \<noteq> None \<or> v ''Pull'' = None \<or> \<not> decimal_integer (index v ''Pull'')
        \<or> \<not> fits_int (decimal_value (index v ''Pull'')))"
  proof (cases "snd (urs v)")
    case None
    from Unmarshal_snd [of urs v, OF this] None index_missing [of v "''Pull''"]
    show ?thesis by auto
  next
    case (Some e)
    from Unmarshal_repo_error [of urs v, OF this] Some show ?thesis by simp
  qed
next
  fix e assume "snd (urs v) = Some e"
  then show "UnmarshalPullRequestSpec urs v = (\<lparr>Repo = fst (urs v), Number = 0\<rparr>, Some (Collaborator e))"
    by (rule Unmarshal_repo_error)
next
  fix v' assume a: "urs v' = urs v \<and> snd (urs v) \<noteq> None"
  then obtain e where e: "snd (urs v) = Some e" by auto
  with a have "snd (urs v') = Some e" by simp
  from Unmarshal_repo_error [of urs v', OF this] Unmarshal_repo_error [of urs v, OF e] a
  show "UnmarshalPullRequestSpec urs v' = UnmarshalPullRequestSpec urs v" by simp
qed

theorem Unmarshal_error_iff_witness:
  "UnmarshalPullRequestSpec UnmarshalRepoSpec [''Pull'' \<mapsto> ''5'']
     = (\<lparr>Repo = \<lparr>URI = []\<rparr>, Number = 0\<rparr>, Some (Collaborator ''malformed repo spec''))
   \<and> UnmarshalPullRequestSpec UnmarshalRepoSpec [''Pull'' \<mapsto> ''x'']
     = UnmarshalPullRequestSpec UnmarshalRepoSpec [''Pull'' \<mapsto> ''5'']"
  using Unmarshal_error_iff [of UnmarshalRepoSpec "[''Pull'' \<mapsto> ''5'']"]
  by (simp add: UnmarshalRepoSpec_def)

text \<open>
  The claim as first stated leaves the range out: \<^verbatim>\<open>9223372036854775808\<close>, which is
  \<open>2 ^ 63\<close>, is present and a decimal integer, the repo extraction succeeds, and an error
  is returned all the same.
\<close>

theorem Unmarshal_error_iff_counterexample:
  "snd (UnmarshalPullRequestSpec UnmarshalRepoSpec
         [''RepoSpec'' \<mapsto> ''a/b'', ''Pull'' \<mapsto> ''9223372036854775808'']) \<noteq> None
   \<and> snd (UnmarshalRepoSpec [''RepoSpec'' \<mapsto> ''a/b'', ''Pull'' \<mapsto> ''9223372036854775808'']) = None
   \<and> [''RepoSpec'' \<mapsto> ''a/b'', ''Pull'' \<mapsto> ''9223372036854775808''] ''Pull'' \<noteq> None
   \<and> decimal_integer (index [''RepoSpec'' \<mapsto> ''a/b'', ''Pull'' \<mapsto> ''9223372036854775808''] ''Pull'')"
  by (simp add: UnmarshalPullRequestSpec_def UnmarshalRepoSpec_def decimal_integer_def eval_simps)

text \<open>
  Claim C7, as amended. Whenever \<^verbatim>\<open>UnmarshalPullRequestCommentSpec\<close> returns an error,
  the spec that comes with it is the zero value. \<^verbatim>\<open>UnmarshalPullRequestSpec\<close> gives no
  such promise: with an error it returns, in \<^verbatim>\<open>Repo\<close>, whatever the repo extraction
  returned; its \<^verbatim>\<open>Number\<close> is 0 when the error is the collaborator's or a syntax
  error, and the largest or the smallest \<^verbatim>\<open>int\<close> when the error is a range error.
  When the repo extraction succeeds and \<^verbatim>\<open>v["Pull"]\<close> is a decimal integer out of
  range, the number is the smallest \<^verbatim>\<open>int\<close> for a negative text and the largest
  otherwise, and the error is the range error that names the text.
\<close>

theorem Unmarshal_on_error:
  "(snd (UnmarshalPullRequestCommentSpec urs v) \<noteq> None \<longrightarrow>
      fst (UnmarshalPullRequestCommentSpec urs v) = PullRequestCommentSpec_zero)
   \<and> (snd (UnmarshalPullRequestSpec urs v) \<noteq> None \<longrightarrow>
        Repo (fst (UnmarshalPullRequestSpec urs v)) = fst (urs v)
        \<and> (Number (fst (UnmarshalPullRequestSpec urs v)) = 0
           \<or> Number (fst (UnmarshalPullRequestSpec urs v)) = word_of_int (2 ^ 63 - 1)
           \<or> Number (fst (UnmarshalPullRequestSpec urs v)) = word_of_int (- (2 ^ 63))))
   \<and> (\<forall>e. snd (UnmarshalPullRequestSpec urs v) = Some (Collaborator e) \<longrightarrow>
        Number (fst (UnmarshalPullRequestSpec urs v)) = 0)
   \<and> (\<forall>s. snd (UnmarshalPullRequestSpec urs v) = Some (NumError s ErrSyntax) \<longrightarrow>
        Number (fst (UnmarshalPullRequestSpec urs v)) = 0)
   \<and> (\<forall>s. snd (UnmarshalPullRequestSpec urs v) = Some (NumError s ErrRange) \<longrightarrow>
        Number (fst (UnmarshalPullRequestSpec urs v)) = word_of_int (2 ^ 63 - 1)
        \<or> Number (fst (UnmarshalPullRequestSpec urs v)) = word_of_int (- (2 ^ 63)))
   \<and> (snd (urs v) = None \<and> decimal_integer (index v ''Pull'')
        \<and> \<not> fits_int (decimal_value (index v ''Pull'')) \<longrightarrow>
        UnmarshalPullRequestSpec urs v =
          (\<lparr>Repo = fst (urs v),
            Number = (if decimal_value (index v ''Pull'') < 0 then word_of_int (- (2 ^ 63))
                      else word_of_int (2 ^ 63 - 1))\<rparr>,
           Some (NumError (index v ''Pull'') ErrRange)))"
proof -
  have range: "snd (urs v) = None \<and> decimal_integer (index v ''Pull'')
        \<and> \<not> fits_int (decimal_value (index v ''Pull'')) \<longrightarrow>
        UnmarshalPullRequestSpec urs v =
          (\<lparr>Repo = fst (urs v),
            Number = (if decimal_value (index v ''Pull'') < 0 then word_of_int (- (2 ^ 63))
                      else word_of_int (2 ^ 63 - 1))\<rparr>,
           Some (NumError (index v ''Pull'') ErrRange))"
    using Unmarshal_out_of_range [of urs v] by blast
  have rest: "(snd (UnmarshalPullRequestCommentSpec urs v) \<noteq> None \<longrightarrow>
      fst (UnmarshalPullRequestCommentSpec urs v) = PullRequestCommentSpec_zero)
   \<and> (snd (UnmarshalPullRequestSpec urs v) \<noteq> None \<longrightarrow>
        Repo (fst (UnmarshalPullRequestSpec urs v)) = fst (urs v)
        \<and> (Number (fst (UnmarshalPullRequestSpec urs v)) = 0
           \<or> Number (fst (UnmarshalPullRequestSpec urs v)) = word_of_int (2 ^ 63 - 1)
           \<or> Number (fst (UnmarshalPullRequestSpec urs v)) = word_of_int (- (2 ^ 63))))
   \<and> (\<forall>e. snd (UnmarshalPullRequestSpec urs v) = Some (Collaborator e) \<longrightarrow>
        Number (fst (UnmarshalPullRequestSpec urs v)) = 0)
   \<and> (\<forall>s. snd (UnmarshalPullRequestSpec urs v) = Some (NumError s ErrSyntax) \<longrightarrow>
        Number (fst (UnmarshalPullRequestSpec urs v)) = 0)
   \<and> (\<forall>s. snd (UnmarshalPullRequestSpec urs v) = Some (NumError s ErrRange) \<longrightarrow>
        Number (fst (UnmarshalPullRequestSpec urs v)) = word_of_int (2 ^ 63 - 1)
        \<or> Number (fst (UnmarshalPullRequestSpec urs v)) = word_of_int (- (2 ^ 63)))"
    using Unmarshal_Number_on_error [of urs v] Unmarshal_Comment_on_error [of urs v]
    by (auto split: option.splits error.splits NumErrKind.splits)
  from rest range show ?thesis by (intro conjI) blast+
qed

theorem Unmarshal_on_error_witness:
  "UnmarshalPullRequestCommentSpec UnmarshalRepoSpec [''RepoSpec'' \<mapsto> ''a/b'']
     = (PullRequestCommentSpec_zero, Some (NumError [] ErrSyntax))
   \<and> UnmarshalPullRequestSpec UnmarshalRepoSpec [''RepoSpec'' \<mapsto> ''a/b'']
     = (\<lparr>Repo = \<lparr>URI = ''a/b''\<rparr>, Number = 0\<rparr>, Some (NumError [] ErrSyntax))
   \<and> UnmarshalPullRequestSpec UnmarshalRepoSpec [''Pull'' \<mapsto> ''5'']
     = (\<lparr>Repo = \<lparr>URI = []\<rparr>, Number = 0\<rparr>, Some (Collaborator ''malformed repo spec''))
   \<and> UnmarshalPullRequestSpec UnmarshalRepoSpec
        [''RepoSpec'' \<mapsto> ''a/b'', ''Pull'' \<mapsto> ''-9223372036854775809'']
     = (\<lparr>Repo = \<lparr>URI = ''a/b''\<rparr>, Number = word_of_int (- (2 ^ 63))\<rparr>,
        Some (NumError ''-9223372036854775809'' ErrRange))
   \<and> UnmarshalPullRequestSpec UnmarshalRepoSpec
        [''RepoSpec'' \<mapsto> ''a/b'', ''Pull'' \<mapsto> ''9223372036854775808'']
     = (\<lparr>Repo = \<lparr>URI = ''a/b''\<rparr>, Number = word_of_int (2 ^ 63 - 1)\<rparr>,
        Some (NumError ''9223372036854775808'' ErrRange))"
proof -
  have ev: "UnmarshalPullRequestCommentSpec UnmarshalRepoSpec [''RepoSpec'' \<mapsto> ''a/b'']
     = (PullRequestCommentSpec_zero, Some (NumError [] ErrSyntax))
   \<and> UnmarshalPullRequestSpec UnmarshalRepoSpec [''RepoSpec'' \<mapsto> ''a/b'']
     = (\<lparr>Repo = \<lparr>URI = ''a/b''\<rparr>, Number = 0\<rparr>, Some (NumError [] ErrSyntax))
   \<and> UnmarshalPullRequestSpec UnmarshalRepoSpec [''Pull'' \<mapsto> ''5'']
     = (\<lparr>Repo = \<lparr>URI = []\<rparr>, Number = 0\<rparr>, Some (Collaborator ''malformed repo spec''))
   \<and> UnmarshalPullRequestSpec UnmarshalRepoSpec
        [''RepoSpec'' \<mapsto> ''a/b'', ''Pull'' \<mapsto> ''-9223372036854775809'']
     = (\<lparr>Repo = \<lparr>URI = ''a/b''\<rparr>, Number = word_of_int (- (2 ^ 63))\<rparr>,
        Some (NumError ''-9223372036854775809'' ErrRange))
   \<and> UnmarshalPullRequestSpec UnmarshalRepoSpec
        [''RepoSpec'' \<mapsto> ''a/b'', ''Pull'' \<mapsto> ''9223372036854775808'']
     = (\<lparr>Repo = \<lparr>URI = ''a/b''\<rparr>, Number = word_of_int (2 ^ 63 - 1)\<rparr>,
        Some (NumError ''9223372036854775808'' ErrRange))"
    by (simp add: UnmarshalPullRequestCommentSpec_def UnmarshalPullRequestSpec_def
        UnmarshalRepoSpec_def PullRequestSpec_zero_def PullRequestCommentSpec_zero_def eval_simps)
  show ?thesis
    using Unmarshal_on_error [of UnmarshalRepoSpec "[''RepoSpec'' \<mapsto> ''a/b'']"]
      Unmarshal_on_error [of UnmarshalRepoSpec "[''Pull'' \<mapsto> ''5'']"]
      Unmarshal_on_error [of UnmarshalRepoSpec
        "[''RepoSpec'' \<mapsto> ''a/b'', ''Pull'' \<mapsto> ''9223372036854775808'']"]
      ev
    by simp
qed

text \<open>
  The claim as first stated fails for \<^verbatim>\<open>UnmarshalPullRequestSpec\<close>: with \<^verbatim>\<open>Pull\<close>
  missing, the error comes with a spec whose repo is populated.
\<close>

theorem Unmarshal_on_error_counterexample:
  "snd (UnmarshalPullRequestSpec UnmarshalRepoSpec [''RepoSpec'' \<mapsto> ''a/b''])
     = Some (NumError [] ErrSyntax)
   \<and> fst (UnmarshalPullRequestSpec UnmarshalRepoSpec [''RepoSpec'' \<mapsto> ''a/b''])
     = \<lparr>Repo = \<lparr>URI = ''a/b''\<rparr>, Number = 0\<rparr>
   \<and> fst (UnmarshalPullRequestSpec UnmarshalRepoSpec [''RepoSpec'' \<mapsto> ''a/b''])
     \<noteq> PullRequestSpec_zero"
  by (simp add: UnmarshalPullRequestSpec_def UnmarshalRepoSpec_def PullRequestSpec_zero_def eval_simps)

text \<open>
  Claim C5, as amended. For a pull request whose \<^verbatim>\<open>HTMLURL\<close> has the shape
  \<^verbatim>\<open>https://host/seg1/seg2\<close>, alone or followed by \<^verbatim>\<open>/\<close> and more, and whose
  \<^verbatim>\<open>Number\<close> is not nil, \<^verbatim>\<open>Spec()\<close> returns the spec whose repo URI is the host and
  the first two path segments joined by \<^verbatim>\<open>/\<close>, and whose number is the value of the
  field \<^verbatim>\<open>Number\<close> of the struct (it is not taken from the URL).
\<close>

theorem Spec_of_wellformed_URL:
  assumes "HTMLURL r = Some (''https://'' @ host @ ''/'' @ seg1 @ ''/'' @ seg2 @ rest)"
    and "CHR ''/'' \<notin> set host" and "CHR ''/'' \<notin> set seg1" and "CHR ''/'' \<notin> set seg2"
    and "rest = [] \<or> hd rest = CHR ''/''"
    and "pr_Number r = Some n"
  shows "PullRequest_Spec r = Inr \<lparr>Repo = \<lparr>URI = host @ ''/'' @ seg1 @ ''/'' @ seg2\<rparr>, Number = n\<rparr>"
proof -
  from take3_Split [OF assms(2-5)] obtain later where
    sp: "Split (host @ ''/'' @ seg1 @ ''/'' @ seg2 @ rest) (CHR ''/'') = host # seg1 # seg2 # later"
    by blast
  have tp: "TrimPrefix (''https://'' @ host @ ''/'' @ seg1 @ ''/'' @ seg2 @ rest) ''https://''
      = host @ ''/'' @ seg1 @ ''/'' @ seg2 @ rest"
    by (rule TrimPrefix_append)
  show ?thesis
    unfolding PullRequest_Spec_def assms(1) assms(6) option.case tp sp
    by simp
qed

theorem Spec_of_wellformed_URL_witness:
  "PullRequest_Spec \<lparr>HTMLURL = Some ''https://github.com/o/r/pull/5'', pr_Number = Some 7\<rparr>
     = Inr \<lparr>Repo = \<lparr>URI = ''github.com/o/r''\<rparr>, Number = 7\<rparr>"
  using Spec_of_wellformed_URL [of "\<lparr>HTMLURL = Some ''https://github.com/o/r/pull/5'', pr_Number = Some 7\<rparr>"
      "''github.com''" "''o''" "''r''" "''/pull/5''" 7]
  by simp

text \<open>
  The claim as first stated asks nothing of \<^verbatim>\<open>Number\<close>: with a well-formed URL and a
  nil \<^verbatim>\<open>Number\<close> the call panics on \<^verbatim>\<open>*r.Number\<close> and returns no spec.
\<close>

theorem Spec_of_wellformed_URL_counterexample:
  "PullRequest_Spec \<lparr>HTMLURL = Some ''https://github.com/o/r/pull/5'', pr_Number = None\<rparr>
     = Inl NilDereference"
  by (simp add: PullRequest_Spec_def TrimPrefix_def HasPrefix_def)

text \<open>
  Claim C9. \<^verbatim>\<open>Spec()\<close> returns without a fault exactly when \<^verbatim>\<open>HTMLURL\<close> and
  \<^verbatim>\<open>Number\<close> are not nil and the URL, once the prefix \<^verbatim>\<open>https://\<close> is trimmed, splits
  on \<^verbatim>\<open>/\<close> into three pieces or more; with fewer than three pieces the slice
  \<^verbatim>\<open>[0:3]\<close> is out of bounds and the call panics.
\<close>

theorem Spec_total_iff:
  "((\<exists>s. PullRequest_Spec r = Inr s) \<longleftrightarrow>
      (case HTMLURL r of
         None \<Rightarrow> False
       | Some u \<Rightarrow> pr_Number r \<noteq> None
           \<and> 3 \<le> length (Split (TrimPrefix u ''https://'') (CHR ''/''))))
   \<and> (\<forall>u. HTMLURL r = Some u \<and> length (Split (TrimPrefix u ''https://'') (CHR ''/'')) < 3
        \<longrightarrow> PullRequest_Spec r = Inl SliceBoundsOutOfRange)"
  by (auto simp: PullRequest_Spec_def Let_def split: option.splits)

theorem Spec_total_iff_witness:
  "PullRequest_Spec \<lparr>HTMLURL = Some ''https://github.com/o'', pr_Number = Some 5\<rparr>
     = Inl SliceBoundsOutOfRange
   \<and> length (Split (TrimPrefix ''https://github.com/o'' ''https://'') (CHR ''/'')) = 2"
  using Spec_total_iff [of "\<lparr>HTMLURL = Some ''https://github.com/o'', pr_Number = Some 5\<rparr>"]
  by (simp add: TrimPrefix_def HasPrefix_def)

text \<open>
  Claim C10. \<^verbatim>\<open>EditComment\<close> returns the error \<^verbatim>\<open>comment ID not specified\<close> if and
  only if the comment's \<^verbatim>\<open>ID\<close> is nil; then nothing is asked of the client (no URL is
  built, no request made or sent) and the two other results are nil. When \<^verbatim>\<open>ID\<close> is
  not nil, the route variables handed to the client's \<^verbatim>\<open>url\<close>, for the route
  \<^verbatim>\<open>RepoPullRequestCommentsEdit\<close>, are those of
  \<^verbatim>\<open>PullRequestCommentSpec{Pull: pull, Comment: *comment.ID}\<close>: what \<^verbatim>\<open>url\<close> answers
  at these variables decides the outcome. Its error is returned and nothing else is
  called; otherwise its URL goes into a \<^verbatim>\<open>PATCH\<close> request with the comment as body,
  whose error is returned in turn, and else the request is sent and the answer of
  \<^verbatim>\<open>Do\<close> is the result.
\<close>

theorem EditComment_ID:
  "(snd (snd (fst (EditComment cl pull comment))) = Some (Errorf ''comment ID not specified'')
      \<longleftrightarrow> ID comment = None)
   \<and> (ID comment = None \<longrightarrow>
        EditComment cl pull comment = ((None, None, Some (Errorf ''comment ID not specified'')), []))
   \<and> (\<forall>i. ID comment = Some i \<longrightarrow>
        (\<exists>later. snd (EditComment cl pull comment) =
           UrlCall RepoPullRequestCommentsEdit
             (PullRequestCommentSpec_RouteVars \<lparr>Pull = pull, Comment = i\<rparr>) # later))
   \<and> (\<forall>i e. ID comment = Some i
          \<and> snd (client_url cl RepoPullRequestCommentsEdit
                 (PullRequestCommentSpec_RouteVars \<lparr>Pull = pull, Comment = i\<rparr>)) = Some e \<longrightarrow>
        EditComment cl pull comment =
          ((None, None, Some (Collaborator e)),
           [UrlCall RepoPullRequestCommentsEdit
              (PullRequestCommentSpec_RouteVars \<lparr>Pull = pull, Comment = i\<rparr>)]))
   \<and> (\<forall>i u e. ID comment = Some i
          \<and> client_url cl RepoPullRequestCommentsEdit
               (PullRequestCommentSpec_RouteVars \<lparr>Pull = pull, Comment = i\<rparr>) = (u, None)
          \<and> snd (NewRequest cl ''PATCH'' u (Some comment)) = Some e \<longrightarrow>
        EditComment cl pull comment =
          ((None, None, Some (Collaborator e)),
           [UrlCall RepoPullRequestCommentsEdit
              (PullRequestCommentSpec_RouteVars \<lparr>Pull = pull, Comment = i\<rparr>),
            NewRequestCall ''PATCH'' u (Some comment)]))
   \<and> (\<forall>i u req. ID comment = Some i
          \<and> client_url cl RepoPullRequestCommentsEdit
               (PullRequestCommentSpec_RouteVars \<lparr>Pull = pull, Comment = i\<rparr>) = (u, None)
          \<and> NewRequest cl ''PATCH'' u (Some comment) = (req, None) \<longrightarrow>
        EditComment cl pull comment =
          ((case Do cl req of
              (updated, resp, None) \<Rightarrow> (Some updated, resp, None)
            | (updated, resp, Some e) \<Rightarrow> (None, None, Some (Collaborator e))),
           [UrlCall RepoPullRequestCommentsEdit
              (PullRequestCommentSpec_RouteVars \<lparr>Pull = pull, Comment = i\<rparr>),
            NewRequestCall ''PATCH'' u (Some comment),
            DoCall req]))"
proof (intro conjI allI impI)
  show "snd (snd (fst (EditComment cl pull comment))) = Some (Errorf ''comment ID not specified'')
      \<longleftrightarrow> ID comment = None"
  proof (cases "ID comment")
    case None
    from EditComment_nil [where cl = cl and pull = pull, OF this] None show ?thesis by simp
  next
    case (Some i)
    from EditComment_other_error [where cl = cl and pull = pull, OF this] Some
    show ?thesis by simp
  qed
next
  assume "ID comment = None"
  then show "EditComment cl pull comment
      = ((None, None, Some (Errorf ''comment ID not specified'')), [])"
    by (rule EditComment_nil)
next
  fix i assume "ID comment = Some i"
  then show "\<exists>later. snd (EditComment cl pull comment) =
           UrlCall RepoPullRequestCommentsEdit
             (PullRequestCommentSpec_RouteVars \<lparr>Pull = pull, Comment = i\<rparr>) # later"
    by (rule EditComment_calls)
next
  fix i e
  assume "ID comment = Some i
          \<and> snd (client_url cl RepoPullRequestCommentsEdit
                 (PullRequestCommentSpec_RouteVars \<lparr>Pull = pull, Comment = i\<rparr>)) = Some e"
  then show "EditComment cl pull comment =
          ((None, None, Some (Collaborator e)),
           [UrlCall RepoPullRequestCommentsEdit
              (PullRequestCommentSpec_RouteVars \<lparr>Pull = pull, Comment = i\<rparr>)])"
    using EditComment_url_error [of comment i cl pull e] by blast
next
  fix i u e
  assume "ID comment = Some i
          \<and> client_url cl RepoPullRequestCommentsEdit
               (PullRequestCommentSpec_RouteVars \<lparr>Pull = pull, Comment = i\<rparr>) = (u, None)
          \<and> snd (NewRequest cl ''PATCH'' u (Some comment)) = Some e"
  then show "EditComment cl pull comment =
          ((None, None, Some (Collaborator e)),
           [UrlCall RepoPullRequestCommentsEdit
              (PullRequestCommentSpec_RouteVars \<lparr>Pull = pull, Comment = i\<rparr>),
            NewRequestCall ''PATCH'' u (Some comment)])"
    using EditComment_request_error [of comment i cl pull u e] by blast
next
  fix i u req
  assume "ID comment = Some i
          \<and> client_url cl RepoPullRequestCommentsEdit
               (PullRequestCommentSpec_RouteVars \<lparr>Pull = pull, Comment = i\<rparr>) = (u, None)
          \<and> NewRequest cl ''PATCH'' u (Some comment) = (req, None)"
  then show "EditComment cl pull comment =
          ((case Do cl req of
              (updated, resp, None) \<Rightarrow> (Some updated, resp, None)
            | (updated, resp, Some e) \<Rightarrow> (None, None, Some (Collaborator e))),
           [UrlCall RepoPullRequestCommentsEdit
              (PullRequestCommentSpec_RouteVars \<lparr>Pull = pull, Comment = i\<rparr>),
            NewRequestCall ''PATCH'' u (Some comment),
            DoCall req])"
    using EditComment_sent [of comment i cl pull u req] by blast
qed

theorem EditComment_ID_witness:
  "EditComment client_model \<lparr>Repo = \<lparr>URI = ''a/b''\<rparr>, Number = 5\<rparr> \<lparr>Published = True, ID = None\<rparr>
     = ((None, None, Some (Errorf ''comment ID not specified'')), [])
   \<and> EditComment client_no_route \<lparr>Repo = \<lparr>URI = ''a/b''\<rparr>, Number = 5\<rparr>
        \<lparr>Published = True, ID = Some 7\<rparr>
     = ((None, None, Some (Collaborator ''no route'')),
        [UrlCall RepoPullRequestCommentsEdit
           (PullRequestCommentSpec_RouteVars
              \<lparr>Pull = \<lparr>Repo = \<lparr>URI = ''a/b''\<rparr>, Number = 5\<rparr>, Comment = 7\<rparr>)])
   \<and> EditComment client_model \<lparr>Repo = \<lparr>URI = ''a/b''\<rparr>, Number = 5\<rparr>
        \<lparr>Published = True, ID = Some 7\<rparr>
     = ((Some \<lparr>Published = True, ID = Some 7\<rparr>, Some 200, None),
        [UrlCall RepoPullRequestCommentsEdit
           (PullRequestCommentSpec_RouteVars
              \<lparr>Pull = \<lparr>Repo = \<lparr>URI = ''a/b''\<rparr>, Number = 5\<rparr>, Comment = 7\<rparr>),
         NewRequestCall ''PATCH'' ''/repos/a/b/pulls/5/comments/7''
           (Some \<lparr>Published = True, ID = Some 7\<rparr>),
         DoCall \<lparr>Method = ''PATCH'', URL = ''/repos/a/b/pulls/5/comments/7'',
                 Payload = Some \<lparr>Published = True, ID = Some 7\<rparr>\<rparr>])"
proof -
  have rv: "PullRequestCommentSpec_RouteVars
              \<lparr>Pull = \<lparr>Repo = \<lparr>URI = ''a/b''\<rparr>, Number = 5\<rparr>, Comment = 7\<rparr>
      = [''RepoSpec'' \<mapsto> ''a/b'', ''Pull'' \<mapsto> ''5'', ''CommentID'' \<mapsto> ''7'']"
    by (simp add: PullRequestCommentSpec_RouteVars_def PullRequestSpec_RouteVars_def
        Itoa_def FormatUint.simps digit_char_def)
  have ev: "EditComment client_model \<lparr>Repo = \<lparr>URI = ''a/b''\<rparr>, Number = 5\<rparr> \<lparr>Published = True, ID = None\<rparr>
     = ((None, None, Some (Errorf ''comment ID not specified'')), [])
   \<and> EditComment client_no_route \<lparr>Repo = \<lparr>URI = ''a/b''\<rparr>, Number = 5\<rparr>
        \<lparr>Published = True, ID = Some 7\<rparr>
     = ((None, None, Some (Collaborator ''no route'')),
        [UrlCall RepoPullRequestCommentsEdit
           (PullRequestCommentSpec_RouteVars
              \<lparr>Pull = \<lparr>Repo = \<lparr>URI = ''a/b''\<rparr>, Number = 5\<rparr>, Comment = 7\<rparr>)])
   \<and> EditComment client_model \<lparr>Repo = \<lparr>URI = ''a/b''\<rparr>, Number = 5\<rparr>
        \<lparr>Published = True, ID = Some 7\<rparr>
     = ((Some \<lparr>Published = True, ID = Some 7\<rparr>, Some 200, None),
        [UrlCall RepoPullRequestCommentsEdit
           (PullRequestCommentSpec_RouteVars
              \<lparr>Pull = \<lparr>Repo = \<lparr>URI = ''a/b''\<rparr>, Number = 5\<rparr>, Comment = 7\<rparr>),
         NewRequestCall ''PATCH'' ''/repos/a/b/pulls/5/comments/7''
           (Some \<lparr>Published = True, ID = Some 7\<rparr>),
         DoCall \<lparr>Method = ''PATCH'', URL = ''/repos/a/b/pulls/5/comments/7'',
                 Payload = Some \<lparr>Published = True, ID = Some 7\<rparr>\<rparr>])"
    by (simp add: EditComment_def Let_def client_model_def client_no_route_def index_def rv)
  show ?thesis
    using EditComment_ID [of client_model "\<lparr>Repo = \<lparr>URI = ''a/b''\<rparr>, Number = 5\<rparr>"
        "\<lparr>Published = True, ID = None\<rparr>"]
      EditComment_ID [of client_no_route "\<lparr>Repo = \<lparr>URI = ''a/b''\<rparr>, Number = 5\<rparr>"
        "\<lparr>Published = True, ID = Some 7\<rparr>"]
      EditComment_ID [of client_model "\<lparr>Repo = \<lparr>URI = ''a/b''\<rparr>, Number = 5\<rparr>"
        "\<lparr>Published = True, ID = Some 7\<rparr>"]
      ev
    by blast
qed

text \<open>
  Claim C3, as amended. \<^verbatim>\<open>ParsePersonSpec\<close> checks its grammar in order: a text that
  begins with \<^verbatim>\<open>$\<close> gives, when the remainder is one decimal digit or more, the spec
  with the remainder's value in \<^verbatim>\<open>UID\<close> and the two other fields empty, which has
  \<^verbatim>\<open>UID\<close> populated when the value is positive and no field populated when it is
  zero; it fails with \<^verbatim>\<open>InvalidFormat\<close> otherwise. Else a text that contains
  \<^verbatim>\<open>@\<close> is the \<^verbatim>\<open>Email\<close>, verbatim; else the text is the \<^verbatim>\<open>Login\<close>,
  verbatim. So \<^verbatim>\<open>"a"\<close> is a login, \<^verbatim>\<open>"a@a.com"\<close> an email, \<^verbatim>\<open>"$1"\<close> the UID
  1, and \<^verbatim>\<open>"$x"\<close> fails.
\<close>

theorem ParsePersonSpec_grammar:
  "ParsePersonSpec t =
     (if HasPrefix t ''$'' then
        (if drop 1 t \<noteq> [] \<and> list_all is_digit (drop 1 t)
         then Inr \<lparr>Login = [], Email = [], UID = dec_val 0 (drop 1 t)\<rparr>
         else Inl InvalidFormat)
      else if CHR ''@'' \<in> set t then Inr \<lparr>Login = [], Email = t, UID = 0\<rparr>
      else Inr \<lparr>Login = t, Email = [], UID = 0\<rparr>)
   \<and> (\<forall>s. HasPrefix t ''$'' \<and> ParsePersonSpec t = Inr s \<longrightarrow>
         Login s = [] \<and> Email s = [] \<and> UID s = dec_val 0 (drop 1 t)
         \<and> populated s = (if 0 < dec_val 0 (drop 1 t) then 1 else 0))
   \<and> ParsePersonSpec ''a'' = Inr \<lparr>Login = ''a'', Email = [], UID = 0\<rparr>
   \<and> ParsePersonSpec ''a@a.com'' = Inr \<lparr>Login = [], Email = ''a@a.com'', UID = 0\<rparr>
   \<and> ParsePersonSpec ''$1'' = Inr \<lparr>Login = [], Email = [], UID = 1\<rparr>
   \<and> ParsePersonSpec ''$x'' = Inl InvalidFormat"
proof -
  have g: "ParsePersonSpec t =
     (if HasPrefix t ''$'' then
        (if drop 1 t \<noteq> [] \<and> list_all is_digit (drop 1 t)
         then Inr \<lparr>Login = [], Email = [], UID = dec_val 0 (drop 1 t)\<rparr>
         else Inl InvalidFormat)
      else if CHR ''@'' \<in> set t then Inr \<lparr>Login = [], Email = t, UID = 0\<rparr>
      else Inr \<lparr>Login = t, Email = [], UID = 0\<rparr>)"
    by (simp add: ParsePersonSpec_def Let_def)
  have p: "\<forall>s. HasPrefix t ''$'' \<and> ParsePersonSpec t = Inr s \<longrightarrow>
         Login s = [] \<and> Email s = [] \<and> UID s = dec_val 0 (drop 1 t)
         \<and> populated s = (if 0 < dec_val 0 (drop 1 t) then 1 else 0)"
  proof (intro allI impI)
    fix s assume a: "HasPrefix t ''$'' \<and> ParsePersonSpec t = Inr s"
    with g have "s = \<lparr>Login = [], Email = [], UID = dec_val 0 (drop 1 t)\<rparr>"
      by (simp split: if_splits)
    then show "Login s = [] \<and> Email s = [] \<and> UID s = dec_val 0 (drop 1 t)
         \<and> populated s = (if 0 < dec_val 0 (drop 1 t) then 1 else 0)"
      by (simp add: populated_parsed)
  qed
  from g p ParsePersonSpec_literals show ?thesis by blast
qed

theorem ParsePersonSpec_grammar_witness:
  "ParsePersonSpec ''$12'' = Inr \<lparr>Login = [], Email = [], UID = 12\<rparr>
   \<and> populated \<lparr>Login = [], Email = [], UID = 12\<rparr> = 1"
proof -
  have ev: "HasPrefix ''$12'' ''$''"
    "ParsePersonSpec ''$12'' = Inr \<lparr>Login = [], Email = [], UID = 12\<rparr>"
    "dec_val 0 (drop 1 ''$12'') = 12"
    by (simp_all add: ParsePersonSpec_def HasPrefix_def is_digit_def digit_val_def)
  show ?thesis
    using ParsePersonSpec_grammar [of "''$12''"] ev by (simp add: populated_parsed)
qed

text \<open>
  The claim as first stated has every text of \<^verbatim>\<open>$\<close> and a non-negative integer give
  a spec with \<^verbatim>\<open>UID\<close> populated: \<^verbatim>\<open>$0\<close> is such a text, and its spec has no
  field populated.
\<close>

theorem ParsePersonSpec_grammar_counterexample:
  "HasPrefix ''$0'' ''$''
   \<and> list_all is_digit (drop 1 ''$0'') \<and> dec_val 0 (drop 1 ''$0'') = 0
   \<and> ParsePersonSpec ''$0'' = Inr \<lparr>Login = [], Email = [], UID = 0\<rparr>
   \<and> populated \<lparr>Login = [], Email = [], UID = 0\<rparr> = 0"
  by (simp add: ParsePersonSpec_def HasPrefix_def is_digit_def digit_val_def populated_def)

text \<open>
  Claim C2, as amended. For a person spec with exactly one field populated,
  \<^verbatim>\<open>ParsePersonSpec\<close> of its \<^verbatim>\<open>PathComponent\<close> returns that spec exactly when its
  login neither begins with \<^verbatim>\<open>$\<close> nor contains \<^verbatim>\<open>@\<close> and its populated email
  contains \<^verbatim>\<open>@\<close> and does not begin with \<^verbatim>\<open>$\<close>. For a text that
  \<^verbatim>\<open>ParsePersonSpec\<close> accepts, the \<^verbatim>\<open>PathComponent\<close> of the result is the text
  exactly when the text is not empty and does not begin with \<^verbatim>\<open>$0\<close>.
\<close>

theorem PersonSpec_roundtrip:
  "(populated s = 1 \<longrightarrow>
      ((\<exists>t. PathComponent s = Some t \<and> ParsePersonSpec t = Inr s) \<longleftrightarrow>
       (\<not> HasPrefix (Login s) ''$'' \<and> CHR ''@'' \<notin> set (Login s)
        \<and> (Email s = [] \<or> (\<not> HasPrefix (Email s) ''$'' \<and> CHR ''@'' \<in> set (Email s))))))
   \<and> (ParsePersonSpec t = Inr s \<longrightarrow>
      (PathComponent s = Some t \<longleftrightarrow> t \<noteq> [] \<and> \<not> HasPrefix t ''$0''))"
  using roundtrip_format_parse [of s] roundtrip_parse_format [of t s] by blast

theorem PersonSpec_roundtrip_witness:
  "PathComponent \<lparr>Login = [], Email = [], UID = 12\<rparr> = Some ''$12''
   \<and> ParsePersonSpec ''$12'' = Inr \<lparr>Login = [], Email = [], UID = 12\<rparr>"
  using PersonSpec_roundtrip [of "\<lparr>Login = [], Email = [], UID = 12\<rparr>" "''$12''"]
  by (simp add: person_eval)

text \<open>
  The claim as first stated fails on both sides: the login \<^verbatim>\<open>a@b\<close> is formatted as
  \<^verbatim>\<open>a@b\<close> and parsed back as an email; the text \<^verbatim>\<open>$01\<close> is accepted and formatted
  as \<^verbatim>\<open>$1\<close>; the empty text is accepted as a spec with no field populated, which has no
  format.
\<close>

theorem PersonSpec_roundtrip_counterexample:
  "populated \<lparr>Login = ''a@b'', Email = [], UID = 0\<rparr> = 1
   \<and> PathComponent \<lparr>Login = ''a@b'', Email = [], UID = 0\<rparr> = Some ''a@b''
   \<and> ParsePersonSpec ''a@b'' = Inr \<lparr>Login = [], Email = ''a@b'', UID = 0\<rparr>
   \<and> ParsePersonSpec ''a@b'' \<noteq> Inr \<lparr>Login = ''a@b'', Email = [], UID = 0\<rparr>
   \<and> ParsePersonSpec ''$01'' = Inr \<lparr>Login = [], Email = [], UID = 1\<rparr>
   \<and> PathComponent \<lparr>Login = [], Email = [], UID = 1\<rparr> = Some ''$1''
   \<and> PathComponent \<lparr>Login = [], Email = [], UID = 1\<rparr> \<noteq> Some ''$01''
   \<and> ParsePersonSpec [] = Inr \<lparr>Login = [], Email = [], UID = 0\<rparr>
   \<and> PathComponent \<lparr>Login = [], Email = [], UID = 0\<rparr> = None"
  by (simp add: person_eval)

text \<open>
  Claim C8, as amended. A spec that \<^verbatim>\<open>ParsePersonSpec\<close> returns never has two fields
  populated; it has exactly one populated unless the text is empty or is \<^verbatim>\<open>$\<close>
  followed by a numeral of value zero, and then it has none.
\<close>

theorem ParsePersonSpec_exclusive:
  "ParsePersonSpec t = Inr s \<longrightarrow>
     populated s \<le> 1
     \<and> (populated s = 1 \<longleftrightarrow> t \<noteq> [] \<and> (HasPrefix t ''$'' \<longrightarrow> 0 < dec_val 0 (drop 1 t)))"
proof
  assume p: "ParsePersonSpec t = Inr s"
  show "populated s \<le> 1
     \<and> (populated s = 1 \<longleftrightarrow> t \<noteq> [] \<and> (HasPrefix t ''$'' \<longrightarrow> 0 < dec_val 0 (drop 1 t)))"
  proof (cases "HasPrefix t ''$''")
    case True
    with p have "s = \<lparr>Login = [], Email = [], UID = dec_val 0 (drop 1 t)\<rparr>"
      by (simp add: ParsePersonSpec_def Let_def split: if_splits)
    moreover from True have "t \<noteq> []" by (auto simp: HasPrefix_dollar)
    ultimately show ?thesis using True by (simp add: populated_parsed)
  next
    case False
    with p have "s = \<lparr>Login = [], Email = t, UID = 0\<rparr> \<or> s = \<lparr>Login = t, Email = [], UID = 0\<rparr>"
      by (auto simp: ParsePersonSpec_def split: if_splits)
    with False show ?thesis by (auto simp: populated_parsed)
  qed
qed

theorem ParsePersonSpec_exclusive_witness:
  "ParsePersonSpec ''a@a.com'' = Inr \<lparr>Login = [], Email = ''a@a.com'', UID = 0\<rparr>
   \<and> populated \<lparr>Login = [], Email = ''a@a.com'', UID = 0\<rparr> = 1"
  using ParsePersonSpec_exclusive [of "''a@a.com''" "\<lparr>Login = [], Email = ''a@a.com'', UID = 0\<rparr>"]
  by (simp add: ParsePersonSpec_literals populated_parsed)

text \<open>
  The claim as first stated fails on the empty text, which it names: the text is accepted,
  and all three fields of the result are zero. So is \<^verbatim>\<open>$0\<close>.
\<close>

theorem ParsePersonSpec_exclusive_counterexample:
  "ParsePersonSpec [] = Inr \<lparr>Login = [], Email = [], UID = 0\<rparr>
   \<and> populated \<lparr>Login = [], Email = [], UID = 0\<rparr> = 0
   \<and> ParsePersonSpec ''$0'' = Inr \<lparr>Login = [], Email = [], UID = 0\<rparr>"
  by (simp add: person_eval)

end
